theory Spec2Isabelle
  imports Main "HOL-Library.Word"
begin

unbundle bit_operations_syntax

section \<open>The OS X crash log handler (src/os/macosx/crashlog_osx.cpp)\<close>

text \<open>
  A shallow embedding of \<^verbatim>\<open>crashlog_osx.cpp\<close>. Pointers are machine words of the
  platform's pointer width \<open>'a\<close>; the conditional compilation of the file is a
  parameter (\<open>arch\<close>, and \<open>__LP64__\<close> read off the pointer width). What the file calls
  but does not define (the C library, the dynamic loader, the demangler, the base class
  \<^verbatim>\<open>CrashLog\<close>, the game's collaborators) is a field of the environment record.
  Calls with an effect outside the process image are recorded, in order, in a trace.
\<close>

subsection \<open>Conditional compilation\<close>

datatype arch = I386 | PPC | PPC64 | Other

text \<open>\<^verbatim>\<open>IS_ALIGNED(addr)\<close>: \<^verbatim>\<open>((uintptr_t)(addr) & 0xf) == 8\<close> on i386, \<^verbatim>\<open>== 0\<close> elsewhere.\<close>

definition IS_ALIGNED :: "arch \<Rightarrow> 'a::len word \<Rightarrow> bool" where
  "IS_ALIGNED a addr = (if a = I386 then addr AND 0xf = 8 else addr AND 0xf = 0)"

definition MAX_STACK_FRAMES :: int where
  "MAX_STACK_FRAMES = 64"

text \<open>Index of the saved instruction pointer in a frame: \<^verbatim>\<open>frame[2]\<close> on PowerPC, \<^verbatim>\<open>frame[1]\<close> elsewhere.\<close>

definition ip_slot :: "arch \<Rightarrow> nat" where
  "ip_slot a = (if a = PPC \<or> a = PPC64 then 2 else 1)"

text \<open>
  \<^verbatim>\<open>frame[k]\<close> for \<^verbatim>\<open>void **frame\<close>: the pointer stored \<open>k\<close> pointer sizes above \<open>frame\<close>.
  The memory is a total function: every address can be read, and what a read of an unmapped
  address would do to the process is not part of the model.
\<close>

definition frame_slot :: "('a::len word \<Rightarrow> 'a word) \<Rightarrow> 'a word \<Rightarrow> nat \<Rightarrow> 'a word" where
  "frame_slot mem frame k = mem (frame + of_nat (k * (LENGTH('a) div 8)))"

subsection \<open>The printf conversions the file uses\<close>

definition digit_char :: "nat \<Rightarrow> char" where
  "digit_char d = ''0123456789abcdef'' ! d"

fun dec_digits :: "nat \<Rightarrow> string" where
  "dec_digits n = (if n < 10 then [digit_char n] else dec_digits (n div 10) @ [digit_char (n mod 10)])"

fun hex_digits :: "nat \<Rightarrow> string" where
  "hex_digits n = (if n < 16 then [digit_char n] else hex_digits (n div 16) @ [digit_char (n mod 16)])"

declare dec_digits.simps [simp del] hex_digits.simps [simp del]

definition pad_left :: "char \<Rightarrow> nat \<Rightarrow> string \<Rightarrow> string" where
  "pad_left c w s = replicate (w - length s) c @ s"

definition pad_right :: "char \<Rightarrow> nat \<Rightarrow> string \<Rightarrow> string" where
  "pad_right c w s = s @ replicate (w - length s) c"

text \<open>\<^verbatim>\<open>%d\<close> and \<^verbatim>\<open>%ld\<close>.\<close>

definition fmt_d :: "int \<Rightarrow> string" where
  "fmt_d n = (if n < 0 then CHR ''-'' # dec_digits (nat (- n)) else dec_digits (nat n))"

text \<open>\<^verbatim>\<open>%02d\<close>: zero padding goes between the sign and the digits.\<close>

definition fmt_02d :: "int \<Rightarrow> string" where
  "fmt_02d n = (if n < 0 then CHR ''-'' # pad_left CHR ''0'' 1 (dec_digits (nat (- n)))
                else pad_left CHR ''0'' 2 (dec_digits (nat n)))"

text \<open>\<^verbatim>\<open>%-20s\<close>: left-justified in a field of at least 20, never cut.\<close>

definition fmt_m20s :: "string \<Rightarrow> string" where
  "fmt_m20s s = pad_right CHR '' '' 20 s"

text \<open>\<^verbatim>\<open>PRINTF_PTR\<close>: \<^verbatim>\<open>"0x%016lx"\<close> under \<^verbatim>\<open>__LP64__\<close>, \<^verbatim>\<open>"0x%08lx"\<close> otherwise.\<close>

definition PRINTF_PTR :: "'a::len word \<Rightarrow> string" where
  "PRINTF_PTR x = ''0x'' @ pad_left CHR ''0'' (if LENGTH('a) = 64 then 16 else 8) (hex_digits (unat x))"

text \<open>\<^verbatim>\<open>strrchr(s, c)\<close>: the tail of \<open>s\<close> from the last occurrence of \<open>c\<close>, or a null pointer.\<close>

fun strrchr :: "string \<Rightarrow> char \<Rightarrow> string option" where
  "strrchr [] c = None"
| "strrchr (x # xs) c =
     (case strrchr xs c of Some r \<Rightarrow> Some r | None \<Rightarrow> if x = c then Some (x # xs) else None)"

subsection \<open>The bounded text buffer\<close>

text \<open>
  A \<^verbatim>\<open>char\<close> array written through a cursor. \<open>content\<close> is the text from the start of the
  array up to the cursor (the cursor always stands on the terminating NUL, since every call
  is \<^verbatim>\<open>buffer += seprintf(buffer, last, ...)\<close>); \<open>last_off\<close> is the offset of \<^verbatim>\<open>last\<close>,
  the last element of the array.
\<close>

record cbuf =
  content :: string
  last_off :: nat

text \<open>\<^verbatim>\<open>char buffer[n]\<close> passed as \<^verbatim>\<open>(buffer, lastof(buffer))\<close>.\<close>

definition new_cbuf :: "nat \<Rightarrow> cbuf" where
  "new_cbuf n = \<lparr>content = [], last_off = n - 1\<rparr>"

text \<open>
  Modelled from the spec: \<^verbatim>\<open>seprintf\<close> (string.cpp is not among the sources), the
  bounded-append primitive of the report buffer: it appends the formatted text at the cursor,
  never writes past \<^verbatim>\<open>last\<close>, silently cuts what does not fit, signals nothing, and the
  cursor advances by what was written. The argument is the text that the format and its
  arguments expand to.
\<close>

definition seprintf :: "cbuf \<Rightarrow> string \<Rightarrow> cbuf" where
  "seprintf b s = b\<lparr>content := content b @ take (last_off b - length (content b)) s\<rparr>"

subsection \<open>The environment\<close>

text \<open>\<^verbatim>\<open>Dl_info\<close> as filled by \<^verbatim>\<open>dladdr\<close>; a null \<^verbatim>\<open>const char *\<close> is \<open>None\<close>, a null address is 0.\<close>

record (overloaded) 'a Dl_info =
  dli_fname :: "string option"
  dli_sname :: "string option"
  dli_saddr :: "'a word"

text \<open>
  Everything the file reads from outside itself. \<open>dladdr ip = None\<close> is a zero return of
  \<^verbatim>\<open>dladdr\<close>; \<open>cxa_demangle s = None\<close> is a null return of \<^verbatim>\<open>abi::__cxa_demangle\<close>;
  \<open>VideoDriver_GetInstance\<close> is \<open>None\<close> for a null pointer and otherwise holds the answer of
  \<^verbatim>\<open>HasGUI()\<close>. The three writers of \<^verbatim>\<open>CrashLog\<close> get the previous content of the path
  buffer (and the report), and return their result with the new content of the path buffer.
\<close>

record (overloaded) 'a crash_env =
  env_arch :: arch
  frame_address :: "'a word"
  memory :: "'a word \<Rightarrow> 'a word"
  dladdr :: "'a word \<Rightarrow> 'a Dl_info option"
  cxa_demangle :: "string \<Rightarrow> string option"
  strsignal :: "int \<Rightarrow> string"
  crash_message :: string
  GetMacOSVersion :: "int \<times> int \<times> int"
  NXGetLocalArchInfo :: "string option"
  MAC_OS_X_VERSION_MIN_REQUIRED :: int
  MAC_OS_X_VERSION_MAX_ALLOWED :: int
  other_sections :: "string list"
  GamelogTestEmergency :: bool
  SaveloadCrashWithMissingNewGRFs :: bool
  VideoDriver_GetInstance :: "bool option"
  WriteCrashLog :: "string \<Rightarrow> string \<Rightarrow> bool \<times> string"
  WriteSavegame :: "string \<Rightarrow> bool \<times> string"
  WriteScreenshot :: "string \<Rightarrow> bool \<times> string"

subsection \<open>\<^verbatim>\<open>LogOSVersion\<close> and \<^verbatim>\<open>LogError\<close>\<close>

text \<open>The text that the format of \<^verbatim>\<open>LogOSVersion\<close> expands to (lines 61 to 72).\<close>

definition LogOSVersion_text :: "'a::len crash_env \<Rightarrow> string" where
  "LogOSVersion_text env =
     (case GetMacOSVersion env of (ver_maj, ver_min, ver_bug) \<Rightarrow>
        ''Operating system:\<newline>'' @
        '' Name:     Mac OS X\<newline>'' @
        '' Release:  '' @ fmt_d ver_maj @ ''.'' @ fmt_d ver_min @ ''.'' @ fmt_d ver_bug @ ''\<newline>'' @
        '' Machine:  '' @ (case NXGetLocalArchInfo env of Some d \<Rightarrow> d | None \<Rightarrow> ''unknown'') @ ''\<newline>'' @
        '' Min Ver:  '' @ fmt_d (MAC_OS_X_VERSION_MIN_REQUIRED env) @ ''\<newline>'' @
        '' Max Ver:  '' @ fmt_d (MAC_OS_X_VERSION_MAX_ALLOWED env) @ ''\<newline>'')"

definition LogOSVersion :: "'a::len crash_env \<Rightarrow> cbuf \<Rightarrow> cbuf" where
  "LogOSVersion env buffer = seprintf buffer (LogOSVersion_text env)"

text \<open>The text that the format of \<^verbatim>\<open>LogError\<close> expands to (lines 77 to 84).\<close>

definition LogError_text :: "'a::len crash_env \<Rightarrow> int \<Rightarrow> string \<Rightarrow> string" where
  "LogError_text env sig message =
     ''Crash reason:\<newline>'' @
     '' Signal:  '' @ strsignal env sig @ '' ('' @ fmt_d sig @ '')\<newline>'' @
     '' Message: '' @ message @ ''\<newline>\<newline>''"

definition LogError :: "'a::len crash_env \<Rightarrow> int \<Rightarrow> cbuf \<Rightarrow> string \<Rightarrow> cbuf" where
  "LogError env sig buffer message = seprintf buffer (LogError_text env sig message)"

subsection \<open>\<^verbatim>\<open>LogStacktrace\<close>\<close>

text \<open>The image name shown for an instruction pointer (lines 118 to 127).\<close>

definition image_name :: "'a::len crash_env \<Rightarrow> 'a word \<Rightarrow> string" where
  "image_name env ip =
     (case dladdr env ip of
        None \<Rightarrow> ''???''
      | Some dli \<Rightarrow>
          (case dli_fname dli of
             None \<Rightarrow> ''???''
           | Some path \<Rightarrow>
               (case strrchr path CHR ''/'' of
                  Some s \<Rightarrow> tl s
                | None \<Rightarrow> path)))"

text \<open>
  \<^verbatim>\<open>long int offset = (intptr_t)ip - (intptr_t)dli.dli_saddr\<close>: a subtraction of machine
  words, read as a signed number.
\<close>

definition sym_offset :: "'a::len word \<Rightarrow> 'a word \<Rightarrow> int" where
  "sym_offset ip saddr = sint (ip - saddr)"

text \<open>The function offset, printed if the information is available (lines 131 to 141).\<close>

definition print_symbol :: "'a::len crash_env \<Rightarrow> cbuf \<Rightarrow> 'a word \<Rightarrow> cbuf" where
  "print_symbol env buffer ip =
     (case dladdr env ip of
        None \<Rightarrow> buffer
      | Some dli \<Rightarrow>
          (case dli_sname dli of
             None \<Rightarrow> buffer
           | Some sname \<Rightarrow>
               if dli_saddr dli \<noteq> 0 then
                 let func_name = cxa_demangle env sname;
                     offset = sym_offset ip (dli_saddr dli)
                 in seprintf buffer
                      ('' ('' @ (case func_name of Some d \<Rightarrow> d | None \<Rightarrow> sname) @ '' + '' @ fmt_d offset @ '')'')
               else buffer))"

text \<open>What one iteration of the loop prints for frame number \<open>i\<close> with return address \<open>ip\<close>.\<close>

definition print_frame :: "'a::len crash_env \<Rightarrow> cbuf \<Rightarrow> int \<times> 'a word \<Rightarrow> cbuf" where
  "print_frame env buffer f =
     (case f of (i, ip) \<Rightarrow>
        let buffer = seprintf buffer ('' ['' @ fmt_02d i @ '']'');
            buffer = seprintf buffer ('' '' @ fmt_m20s (image_name env ip) @ '' '' @ PRINTF_PTR ip);
            buffer = print_symbol env buffer ip
        in seprintf buffer ''\<newline>'')"

text \<open>
  The \<^verbatim>\<open>for\<close> loop of \<^verbatim>\<open>LogStacktrace\<close> (lines 103 to 149), with the buffer it writes.
\<close>

function stack_loop :: "'a::len crash_env \<Rightarrow> cbuf \<Rightarrow> 'a word \<Rightarrow> int \<Rightarrow> cbuf" where
  "stack_loop env buffer frame i =
     (if frame \<noteq> 0 \<and> i < MAX_STACK_FRAMES then
        let ip = frame_slot (memory env) frame (ip_slot (env_arch env)) in
        if ip = 0 then buffer
        else
          let buffer = print_frame env buffer (i, ip);
              next = frame_slot (memory env) frame 0
          in if next \<le> frame \<or> \<not> IS_ALIGNED (env_arch env) next then buffer
             else stack_loop env buffer next (i + 1)
      else buffer)"
  by pat_completeness auto
termination
  by (relation "measure (\<lambda>(env, buffer, frame, i). nat (MAX_STACK_FRAMES - i))") auto

declare stack_loop.simps [simp del]

text \<open>
  The same loop, keeping only which frames it prints: the running index and the return
  address of every frame that gets a line, in order.
\<close>

function walked_frames :: "'a::len crash_env \<Rightarrow> 'a word \<Rightarrow> int \<Rightarrow> (int \<times> 'a word) list" where
  "walked_frames env frame i =
     (if frame \<noteq> 0 \<and> i < MAX_STACK_FRAMES then
        let ip = frame_slot (memory env) frame (ip_slot (env_arch env)) in
        if ip = 0 then []
        else
          let next = frame_slot (memory env) frame 0
          in if next \<le> frame \<or> \<not> IS_ALIGNED (env_arch env) next then [(i, ip)]
             else (i, ip) # walked_frames env next (i + 1)
      else [])"
  by pat_completeness auto
termination
  by (relation "measure (\<lambda>(env, frame, i). nat (MAX_STACK_FRAMES - i))") auto

declare walked_frames.simps [simp del]

definition LogStacktrace :: "'a::len crash_env \<Rightarrow> cbuf \<Rightarrow> cbuf" where
  "LogStacktrace env buffer =
     (let buffer = seprintf buffer ''\<newline>Stacktrace:\<newline>'';
          buffer = stack_loop env buffer (frame_address env) 0
      in seprintf buffer ''\<newline>'')"

subsection \<open>Signals, the outside world and its trace\<close>

text \<open>The signal numbers of Darwin's \<^verbatim>\<open><signal.h>\<close>.\<close>

definition SIGILL :: int where "SIGILL = 4"
definition SIGABRT :: int where "SIGABRT = 6"
definition SIGFPE :: int where "SIGFPE = 8"
definition SIGBUS :: int where "SIGBUS = 10"
definition SIGSEGV :: int where "SIGSEGV = 11"
definition SIGSYS :: int where "SIGSYS = 12"

text \<open>The signals we want our crash handler to handle (\<^verbatim>\<open>_signals_to_handle\<close>).\<close>

definition signals_to_handle :: "int list" where
  "signals_to_handle = [SIGSEGV, SIGABRT, SIGFPE, SIGBUS, SIGILL, SIGSYS]"

datatype sighandler = SIG_DFL | SIG_IGN | Handler_HandleCrash

text \<open>One constructor for every call that leaves the file, with the arguments that matter.\<close>

datatype event =
    Ev_signal int sighandler
  | Ev_GamelogTestEmergency
  | Ev_SaveloadCrashWithMissingNewGRFs
  | Ev_ShowMacDialog string string string
  | Ev_printf string
  | Ev_FillCrashLog
  | Ev_WriteCrashLog string
  | Ev_WriteSavegame
  | Ev_WriteScreenshot
  | Ev_VideoDriver_GetInstance
  | Ev_HasGUI
  | Ev_AfterCrashLogCleanup
  | Ev_abort

record world =
  dispositions :: "int \<Rightarrow> sighandler"
  trace :: "event list"

definition emit :: "event \<Rightarrow> world \<Rightarrow> world" where
  "emit e w = w\<lparr>trace := trace w @ [e]\<rparr>"

text \<open>\<^verbatim>\<open>signal(sig, handler)\<close> sets the disposition of \<open>sig\<close>.\<close>

definition signal :: "int \<Rightarrow> sighandler \<Rightarrow> world \<Rightarrow> world" where
  "signal sig h w = emit (Ev_signal sig h) (w\<lparr>dispositions := (dispositions w)(sig := h)\<rparr>)"

definition ShowMacDialog :: "string \<Rightarrow> string \<Rightarrow> string \<Rightarrow> world \<Rightarrow> world" where
  "ShowMacDialog title message button w = emit (Ev_ShowMacDialog title message button) w"

definition printf :: "string \<Rightarrow> world \<Rightarrow> world" where
  "printf s w = emit (Ev_printf s) w"

text \<open>\<^verbatim>\<open>abort()\<close> does not return: the world it leaves is the final one.\<close>

definition abort :: "world \<Rightarrow> world" where
  "abort w = emit Ev_abort w"

subsection \<open>\<^verbatim>\<open>class CrashLogOSX\<close>\<close>

record CrashLogOSX =
  signum :: int
  filename_log :: string
  filename_save :: string
  filename_screenshot :: string

text \<open>The constructor (lines 159 to 164).\<close>

definition new_CrashLogOSX :: "int \<Rightarrow> CrashLogOSX" where
  "new_CrashLogOSX sig = \<lparr>signum = sig, filename_log = [], filename_save = [], filename_screenshot = []\<rparr>"

text \<open>
  Modelled from the spec: \<^verbatim>\<open>CrashLog::FillCrashLog\<close> (crashlog.cpp is not among the
  sources), the ordered composition of the report: the environment section, the cause
  section, the stack-trace section, then the collaborator-supplied sections as opaque text
  blocks in their order, every write through the bounded-append primitive.
\<close>

definition FillCrashLog :: "'a::len crash_env \<Rightarrow> int \<Rightarrow> cbuf \<Rightarrow> cbuf" where
  "FillCrashLog env sig buffer =
     (let buffer = LogOSVersion env buffer;
          buffer = LogError env sig buffer (crash_message env);
          buffer = LogStacktrace env buffer
      in foldl seprintf buffer (other_sections env))"

text \<open>\<^verbatim>\<open>MakeCrashLog\<close> (lines 167 to 196): the result, the object and the world after it.\<close>

definition MakeCrashLog :: "'a::len crash_env \<Rightarrow> CrashLogOSX \<Rightarrow> world \<Rightarrow> bool \<times> CrashLogOSX \<times> world" where
  "MakeCrashLog env this w =
     (let buffer = new_cbuf 65536;
          ret = True;
          w = printf ''Crash encountered, generating crash log...\<newline>'' w;
          w = emit Ev_FillCrashLog w;
          buffer = FillCrashLog env (signum this) buffer;
          w = printf (content buffer @ ''\<newline>'') w;
          w = printf ''Crash log generated.\<newline>\<newline>'' w;

          w = printf ''Writing crash log to disk...\<newline>'' w;
          w = emit (Ev_WriteCrashLog (content buffer)) w;
          r = WriteCrashLog env (content buffer) (filename_log this);
          this = this\<lparr>filename_log := snd r\<rparr>;
          this = (if \<not> fst r then this\<lparr>filename_log := []\<rparr> else this);
          ret = (if \<not> fst r then False else ret);

          w = printf ''Writing crash savegame...\<newline>'' w;
          w = emit Ev_WriteSavegame w;
          r = WriteSavegame env (filename_save this);
          this = this\<lparr>filename_save := snd r\<rparr>;
          this = (if \<not> fst r then this\<lparr>filename_save := []\<rparr> else this);
          ret = (if \<not> fst r then False else ret);

          w = printf ''Writing crash screenshot...\<newline>'' w;
          w = emit Ev_WriteScreenshot w;
          r = WriteScreenshot env (filename_screenshot this);
          this = this\<lparr>filename_screenshot := snd r\<rparr>;
          this = (if \<not> fst r then this\<lparr>filename_screenshot := []\<rparr> else this);
          ret = (if \<not> fst r then False else ret)
      in (ret, this, w))"

definition crash_title :: string where
  "crash_title = ''A serious fault condition occurred in the game. The game will shut down.''"

text \<open>The text the format of \<^verbatim>\<open>DisplayCrashDialog\<close> expands to.\<close>

definition crash_dialog_text :: "CrashLogOSX \<Rightarrow> string" where
  "crash_dialog_text this =
     ''Please send the generated crash information and the last (auto)save to the developers. '' @
     ''This will greatly help debugging. The correct place to do this is https://github.com/OpenTTD/OpenTTD/issues.\<newline>\<newline>'' @
     ''Generated file(s):\<newline>'' @ filename_log this @ ''\<newline>'' @ filename_save this @ ''\<newline>'' @ filename_screenshot this"

text \<open>\<^verbatim>\<open>DisplayCrashDialog\<close> (lines 199 to 212).\<close>

definition DisplayCrashDialog :: "CrashLogOSX \<Rightarrow> world \<Rightarrow> world" where
  "DisplayCrashDialog this w =
     (let message = seprintf (new_cbuf 1024) (crash_dialog_text this)
      in ShowMacDialog crash_title (content message) ''Quit'' w)"

subsection \<open>\<^verbatim>\<open>HandleCrash\<close> and \<^verbatim>\<open>InitialiseCrashLog\<close>\<close>

text \<open>
  The two loops over \<^verbatim>\<open>_signals_to_handle\<close> (lines 226 to 228 and 256 to 258).
\<close>

definition set_signal_handlers :: "sighandler \<Rightarrow> world \<Rightarrow> world" where
  "set_signal_handlers h w = foldl (\<lambda>w i. signal i h w) w signals_to_handle"

definition InitialiseCrashLog :: "world \<Rightarrow> world" where
  "InitialiseCrashLog w = set_signal_handlers Handler_HandleCrash w"

text \<open>
  The condition of line 246, \<^verbatim>\<open>GetInstance() == nullptr || GetInstance()->HasGUI()\<close>,
  with its calls in evaluation order.
\<close>

definition gui_available :: "'a::len crash_env \<Rightarrow> world \<Rightarrow> bool \<times> world" where
  "gui_available env w =
     (let w = emit Ev_VideoDriver_GetInstance w in
      case VideoDriver_GetInstance env of
        None \<Rightarrow> (True, w)
      | Some has_gui \<Rightarrow> (has_gui, emit Ev_HasGUI (emit Ev_VideoDriver_GetInstance w)))"

text \<open>
  \<^verbatim>\<open>HandleCrash\<close> (lines 223 to 252). Every path ends in \<^verbatim>\<open>abort()\<close>; the value is the
  world at that point.
\<close>

definition HandleCrash :: "'a::len crash_env \<Rightarrow> int \<Rightarrow> world \<Rightarrow> world" where
  "HandleCrash env sig w =
     (let w = set_signal_handlers SIG_DFL w;
          w = emit Ev_GamelogTestEmergency w
      in if GamelogTestEmergency env then
           abort (ShowMacDialog ''A serious fault condition occurred in the game. The game will shut down.''
                    ''As you loaded an emergency savegame no crash information will be generated.\<newline>''
                    ''Quit'' w)
         else
           let w = emit Ev_SaveloadCrashWithMissingNewGRFs w
           in if SaveloadCrashWithMissingNewGRFs env then
                abort (ShowMacDialog ''A serious fault condition occurred in the game. The game will shut down.''
                         ''As you loaded an savegame for which you do not have the required NewGRFs no crash information will be generated.\<newline>''
                         ''Quit'' w)
              else
                let log = new_CrashLogOSX sig;
                    r = MakeCrashLog env log w;
                    log = fst (snd r);
                    w = snd (snd r);
                    g = gui_available env w;
                    w = (if fst g then DisplayCrashDialog log (snd g) else snd g);
                    w = emit Ev_AfterCrashLogCleanup w
                in abort w)"

subsection \<open>Notions used to state the properties\<close>

text \<open>The events a step adds to the trace.\<close>

definition calls_of :: "(world \<Rightarrow> world) \<Rightarrow> world \<Rightarrow> event list" where
  "calls_of f w = drop (length (trace w)) (trace (f w))"

text \<open>The dispositions that a sequence of calls leaves, starting from \<open>d\<close>.\<close>

fun apply_event :: "(int \<Rightarrow> sighandler) \<Rightarrow> event \<Rightarrow> (int \<Rightarrow> sighandler)" where
  "apply_event d (Ev_signal sig h) = d(sig := h)"
| "apply_event d _ = d"

definition dispositions_after :: "(int \<Rightarrow> sighandler) \<Rightarrow> event list \<Rightarrow> (int \<Rightarrow> sighandler)" where
  "dispositions_after d es = foldl apply_event d es"

fun is_signal_call :: "event \<Rightarrow> bool" where
  "is_signal_call (Ev_signal sig h) = True"
| "is_signal_call _ = False"

text \<open>Calls into the report builder (composition) and into the artifact writers.\<close>

fun is_report_call :: "event \<Rightarrow> bool" where
  "is_report_call Ev_FillCrashLog = True"
| "is_report_call _ = False"

fun is_artifact_call :: "event \<Rightarrow> bool" where
  "is_artifact_call (Ev_WriteCrashLog r) = True"
| "is_artifact_call Ev_WriteSavegame = True"
| "is_artifact_call Ev_WriteScreenshot = True"
| "is_artifact_call _ = False"

fun is_printf_call :: "event \<Rightarrow> bool" where
  "is_printf_call (Ev_printf s) = True"
| "is_printf_call _ = False"

fun is_dialog_call :: "event \<Rightarrow> bool" where
  "is_dialog_call (Ev_ShowMacDialog t m b) = True"
| "is_dialog_call _ = False"

text \<open>The value of a decimal digit, to read a rendered number back.\<close>

definition digit_value :: "char \<Rightarrow> nat" where
  "digit_value c = of_char c - 48"

text \<open>The frame chain: the link of a frame, its return address, the k-th frame from a start.\<close>

definition frame_link :: "'a::len crash_env \<Rightarrow> 'a word \<Rightarrow> 'a word" where
  "frame_link env frame = frame_slot (memory env) frame 0"

definition return_address :: "'a::len crash_env \<Rightarrow> 'a word \<Rightarrow> 'a word" where
  "return_address env frame = frame_slot (memory env) frame (ip_slot (env_arch env))"

definition nth_frame :: "'a::len crash_env \<Rightarrow> 'a word \<Rightarrow> nat \<Rightarrow> 'a word" where
  "nth_frame env frame k = (frame_link env ^^ k) frame"

text \<open>The link of a frame is strictly greater than the frame and passes the alignment check.\<close>

definition link_ok :: "'a::len crash_env \<Rightarrow> 'a word \<Rightarrow> bool" where
  "link_ok env frame =
     (frame < frame_link env frame \<and> IS_ALIGNED (env_arch env) (frame_link env frame))"

text \<open>
  The symbol resolver in the spec's words: the module of an address, the symbol (name and
  start) of an address, the final path component of a module name, the name shown for a
  symbol, and the line of the trace for a frame.
\<close>

definition resolved_module :: "'a::len crash_env \<Rightarrow> 'a word \<Rightarrow> string option" where
  "resolved_module env ip = (case dladdr env ip of None \<Rightarrow> None | Some dli \<Rightarrow> dli_fname dli)"

definition resolved_symbol :: "'a::len crash_env \<Rightarrow> 'a word \<Rightarrow> (string \<times> 'a word) option" where
  "resolved_symbol env ip =
     (case dladdr env ip of
        None \<Rightarrow> None
      | Some dli \<Rightarrow>
          (case dli_sname dli of
             None \<Rightarrow> None
           | Some sname \<Rightarrow> if dli_saddr dli = 0 then None else Some (sname, dli_saddr dli)))"

definition final_component :: "string \<Rightarrow> string" where
  "final_component path = rev (takeWhile (\<lambda>c. c \<noteq> CHR ''/'') (rev path))"

definition shown_symbol :: "'a::len crash_env \<Rightarrow> string \<Rightarrow> string" where
  "shown_symbol env sname = (case cxa_demangle env sname of Some readable \<Rightarrow> readable | None \<Rightarrow> sname)"

definition trace_line :: "'a::len crash_env \<Rightarrow> int \<times> 'a word \<Rightarrow> string" where
  "trace_line env f =
     (case f of (i, ip) \<Rightarrow>
        '' ['' @ fmt_02d i @ ''] '' @
        fmt_m20s (case resolved_module env ip of None \<Rightarrow> ''???'' | Some path \<Rightarrow> final_component path) @
        '' '' @ PRINTF_PTR ip @
        (case resolved_symbol env ip of
           None \<Rightarrow> []
         | Some (sname, start) \<Rightarrow>
             '' ('' @ shown_symbol env sname @ '' + '' @ fmt_d (sym_offset ip start) @ '')'') @
        ''\<newline>'')"

text \<open>The stack-trace section and the whole report, were the buffer unbounded.\<close>

definition stacktrace_text :: "'a::len crash_env \<Rightarrow> string" where
  "stacktrace_text env =
     ''\<newline>Stacktrace:\<newline>'' @
     concat (map (trace_line env) (walked_frames env (frame_address env) 0)) @ ''\<newline>''"

definition report_text :: "'a::len crash_env \<Rightarrow> int \<Rightarrow> string" where
  "report_text env sig =
     LogOSVersion_text env @ LogError_text env sig (crash_message env) @ stacktrace_text env @
     concat (other_sections env)"

text \<open>The report as \<^verbatim>\<open>MakeCrashLog\<close> holds it in its 65536-byte buffer.\<close>

definition crash_report :: "'a::len crash_env \<Rightarrow> int \<Rightarrow> string" where
  "crash_report env sig = content (FillCrashLog env sig (new_cbuf 65536))"

text \<open>The results of the three writers as \<^verbatim>\<open>MakeCrashLog\<close> calls them on a new object.\<close>

definition log_result :: "'a::len crash_env \<Rightarrow> int \<Rightarrow> bool \<times> string" where
  "log_result env sig = WriteCrashLog env (crash_report env sig) []"

definition save_result :: "'a::len crash_env \<Rightarrow> bool \<times> string" where
  "save_result env = WriteSavegame env []"

definition screenshot_result :: "'a::len crash_env \<Rightarrow> bool \<times> string" where
  "screenshot_result env = WriteScreenshot env []"

text \<open>The path kept for an artifact: the one the writer filled in, or none after a failure.\<close>

definition kept_path :: "bool \<times> string \<Rightarrow> string" where
  "kept_path r = (if fst r then snd r else [])"

text \<open>The object after \<^verbatim>\<open>MakeCrashLog\<close> ran on a new one.\<close>

definition crashlog_after :: "'a::len crash_env \<Rightarrow> int \<Rightarrow> CrashLogOSX" where
  "crashlog_after env sig =
     \<lparr>signum = sig,
      filename_log = kept_path (log_result env sig),
      filename_save = kept_path (save_result env),
      filename_screenshot = kept_path (screenshot_result env)\<rparr>"

text \<open>The calls of \<^verbatim>\<open>MakeCrashLog\<close>, and those of lines 246 to 248, in order.\<close>

definition full_report_calls :: "'a::len crash_env \<Rightarrow> int \<Rightarrow> event list" where
  "full_report_calls env sig =
     [Ev_printf ''Crash encountered, generating crash log...\<newline>'',
      Ev_FillCrashLog,
      Ev_printf (crash_report env sig @ ''\<newline>''),
      Ev_printf ''Crash log generated.\<newline>\<newline>'',
      Ev_printf ''Writing crash log to disk...\<newline>'',
      Ev_WriteCrashLog (crash_report env sig),
      Ev_printf ''Writing crash savegame...\<newline>'',
      Ev_WriteSavegame,
      Ev_printf ''Writing crash screenshot...\<newline>'',
      Ev_WriteScreenshot]"

definition notification_calls :: "'a::len crash_env \<Rightarrow> int \<Rightarrow> event list" where
  "notification_calls env sig =
     (case VideoDriver_GetInstance env of
        None \<Rightarrow> [Ev_VideoDriver_GetInstance]
      | Some has_gui \<Rightarrow> [Ev_VideoDriver_GetInstance, Ev_VideoDriver_GetInstance, Ev_HasGUI]) @
     (if VideoDriver_GetInstance env \<noteq> Some False
      then [Ev_ShowMacDialog crash_title (take 1023 (crash_dialog_text (crashlog_after env sig))) ''Quit'']
      else [])"

subsection \<open>Concrete situations\<close>

text \<open>
  A 64-bit process with three frames at 0x1000, 0x1010 and 0x1020, the last of which links
  back to the first; the first return address lies 16 bytes below its nearest symbol, the
  second is in a module without symbol, the third is unknown to the loader. The savegame
  cannot be written, the two other artifacts can.
\<close>

definition example_memory :: "64 word \<Rightarrow> 64 word" where
  "example_memory a =
     (if a = 0x1000 then 0x1010 else if a = 0x1008 then 0xAAA0
      else if a = 0x1010 then 0x1020 else if a = 0x1018 then 0xBBB0
      else if a = 0x1020 then 0x1000 else if a = 0x1028 then 0xCCC0
      else 0)"

definition example_dladdr :: "64 word \<Rightarrow> 64 Dl_info option" where
  "example_dladdr ip =
     (if ip = 0xAAA0 then
        Some \<lparr>dli_fname = Some ''/usr/lib/libfoo.dylib'', dli_sname = Some ''_Z3foov'', dli_saddr = 0xAAB0\<rparr>
      else if ip = 0xBBB0 then
        Some \<lparr>dli_fname = Some ''openttd'', dli_sname = None, dli_saddr = 0\<rparr>
      else None)"

definition example_env :: "64 crash_env" where
  "example_env =
     \<lparr>env_arch = Other,
      frame_address = 0x1000,
      memory = example_memory,
      dladdr = example_dladdr,
      cxa_demangle = (\<lambda>s. if s = ''_Z3foov'' then Some ''foo()'' else None),
      strsignal = (\<lambda>sig. ''Segmentation fault: 11''),
      crash_message = ''<none>'',
      GetMacOSVersion = (10, 15, 7),
      NXGetLocalArchInfo = Some ''Intel x86-64h Haswell'',
      MAC_OS_X_VERSION_MIN_REQUIRED = 1090,
      MAC_OS_X_VERSION_MAX_ALLOWED = 101500,
      other_sections = [],
      GamelogTestEmergency = False,
      SaveloadCrashWithMissingNewGRFs = False,
      VideoDriver_GetInstance = None,
      WriteCrashLog = (\<lambda>report old. (True, ''/home/u/crash.log'')),
      WriteSavegame = (\<lambda>old. (False, ''/home/u/crash.sav'')),
      WriteScreenshot = (\<lambda>old. (True, ''/home/u/crash.png''))\<rparr>"

text \<open>The same with a video driver that has no GUI, and after loading an emergency savegame.\<close>

definition headless_env :: "64 crash_env" where
  "headless_env = example_env\<lparr>VideoDriver_GetInstance := Some False\<rparr>"

definition emergency_env :: "64 crash_env" where
  "emergency_env = example_env\<lparr>GamelogTestEmergency := True\<rparr>"

definition initial_world :: world where
  "initial_world = InitialiseCrashLog \<lparr>dispositions = (\<lambda>sig. SIG_DFL), trace = []\<rparr>"

section \<open>Properties\<close>

subsection \<open>The bounded buffer\<close>

lemma seprintf_last_off [simp]: "last_off (seprintf b s) = last_off b"
  by (simp add: seprintf_def)

lemma seprintf_seprintf: "seprintf (seprintf b s) t = seprintf b (s @ t)"
  by (cases "length s \<le> last_off b - length (content b)") (simp_all add: seprintf_def)

lemma seprintf_Nil [simp]: "seprintf b [] = b"
  by (simp add: seprintf_def)

lemma foldl_seprintf: "foldl seprintf b xs = seprintf b (concat xs)"
  by (induction xs arbitrary: b) (simp_all add: seprintf_seprintf)

lemma content_seprintf_take:
  "length (content b) \<le> last_off b \<Longrightarrow> content (seprintf b s) = take (last_off b) (content b @ s)"
  by (simp add: seprintf_def)

lemma length_content_seprintf:
  "length (content (seprintf b s)) \<le> max (length (content b)) (last_off b)"
  by (simp add: seprintf_def)

lemma content_new_cbuf: "content (seprintf (new_cbuf n) s) = take (n - 1) s"
  by (simp add: seprintf_def new_cbuf_def)

subsection \<open>The frame walk\<close>

lemma walked_frames_unfold:
  "walked_frames env frame i =
     (if frame = 0 \<or> \<not> i < MAX_STACK_FRAMES \<or> return_address env frame = 0 then []
      else if \<not> link_ok env frame then [(i, return_address env frame)]
      else (i, return_address env frame) # walked_frames env (frame_link env frame) (i + 1))"
  by (subst walked_frames.simps) (auto simp: Let_def return_address_def link_ok_def frame_link_def not_less)

lemma stack_loop_unfold:
  "stack_loop env buffer frame i =
     (if frame = 0 \<or> \<not> i < MAX_STACK_FRAMES \<or> return_address env frame = 0 then buffer
      else if \<not> link_ok env frame then print_frame env buffer (i, return_address env frame)
      else stack_loop env (print_frame env buffer (i, return_address env frame)) (frame_link env frame) (i + 1))"
  by (subst stack_loop.simps) (auto simp: Let_def return_address_def link_ok_def frame_link_def not_less)

lemma stack_loop_walked_frames:
  "stack_loop env buffer frame i = foldl (print_frame env) buffer (walked_frames env frame i)"
proof (induction env frame i arbitrary: buffer rule: walked_frames.induct)
  case (1 env frame i)
  show ?case
  proof (cases "frame = 0 \<or> \<not> i < MAX_STACK_FRAMES \<or> return_address env frame = 0")
    case True
    then show ?thesis
      by (subst stack_loop_unfold, subst walked_frames_unfold) simp
  next
    case stop: False
    show ?thesis
    proof (cases "link_ok env frame")
      case False
      with stop show ?thesis
        by (subst stack_loop_unfold, subst walked_frames_unfold) simp
    next
      case True
      have "stack_loop env (print_frame env buffer (i, return_address env frame)) (frame_link env frame) (i + 1)
          = foldl (print_frame env) (print_frame env buffer (i, return_address env frame))
              (walked_frames env (frame_link env frame) (i + 1))"
        using stop True
        by (intro "1.IH"[where x = "return_address env frame" and xa = "frame_link env frame"])
           (auto simp: return_address_def link_ok_def frame_link_def not_le)
      with stop True show ?thesis
        by (subst stack_loop_unfold, subst walked_frames_unfold) simp
    qed
  qed
qed

lemma length_walked_frames: "length (walked_frames env frame i) \<le> nat (MAX_STACK_FRAMES - i)"
proof (induction env frame i rule: walked_frames.induct)
  case (1 env frame i)
  show ?case
  proof (cases "frame = 0 \<or> \<not> i < MAX_STACK_FRAMES \<or> return_address env frame = 0")
    case True
    then show ?thesis by (subst walked_frames_unfold) simp
  next
    case stop: False
    show ?thesis
    proof (cases "link_ok env frame")
      case False
      with stop show ?thesis by (subst walked_frames_unfold) auto
    next
      case True
      have "length (walked_frames env (frame_link env frame) (i + 1)) \<le> nat (MAX_STACK_FRAMES - (i + 1))"
        using stop True
        by (intro "1.IH"[where x = "return_address env frame" and xa = "frame_link env frame"])
           (auto simp: return_address_def link_ok_def frame_link_def not_le)
      with stop True show ?thesis by (subst walked_frames_unfold) auto
    qed
  qed
qed

lemma nth_frame_0 [simp]: "nth_frame env frame 0 = frame"
  by (simp add: nth_frame_def)

lemma nth_frame_Suc: "nth_frame env frame (Suc k) = nth_frame env (frame_link env frame) k"
  by (simp add: nth_frame_def funpow_swap1)

lemma nth_frame_Suc': "nth_frame env frame (Suc k) = frame_link env (nth_frame env frame k)"
  by (simp add: nth_frame_def)

lemma link_ok_nonzero: "link_ok env frame \<Longrightarrow> frame_link env frame \<noteq> 0"
  by (auto simp: link_ok_def)

lemma walked_frames_nth:
  "k < length (walked_frames env frame i) \<Longrightarrow>
     walked_frames env frame i ! k = (i + int k, return_address env (nth_frame env frame k)) \<and>
     nth_frame env frame k \<noteq> 0 \<and>
     return_address env (nth_frame env frame k) \<noteq> 0 \<and>
     (Suc k < length (walked_frames env frame i) \<longrightarrow> link_ok env (nth_frame env frame k))"
proof (induction env frame i arbitrary: k rule: walked_frames.induct)
  case (1 env frame i)
  show ?case
  proof (cases "frame = 0 \<or> \<not> i < MAX_STACK_FRAMES \<or> return_address env frame = 0")
    case True
    with "1.prems" show ?thesis by (subst (asm) walked_frames_unfold) simp
  next
    case stop: False
    show ?thesis
    proof (cases "link_ok env frame")
      case False
      have eq: "walked_frames env frame i = [(i, return_address env frame)]"
        using stop False by (subst walked_frames_unfold) simp
      with "1.prems" have "k = 0" by simp
      with eq stop show ?thesis by simp
    next
      case True
      have eq: "walked_frames env frame i =
          (i, return_address env frame) # walked_frames env (frame_link env frame) (i + 1)"
        using stop True by (subst walked_frames_unfold) simp
      show ?thesis
      proof (cases k)
        case 0
        with eq stop True show ?thesis by simp
      next
        case (Suc j)
        with "1.prems" eq have j: "j < length (walked_frames env (frame_link env frame) (i + 1))"
          by simp
        have "walked_frames env (frame_link env frame) (i + 1) ! j =
            (i + 1 + int j, return_address env (nth_frame env (frame_link env frame) j)) \<and>
          nth_frame env (frame_link env frame) j \<noteq> 0 \<and>
          return_address env (nth_frame env (frame_link env frame) j) \<noteq> 0 \<and>
          (Suc j < length (walked_frames env (frame_link env frame) (i + 1)) \<longrightarrow>
             link_ok env (nth_frame env (frame_link env frame) j))"
          using stop True j
          by (intro "1.IH"[where x = "return_address env frame" and xa = "frame_link env frame"])
             (auto simp: return_address_def link_ok_def frame_link_def not_le)
        with Suc eq show ?thesis by (simp add: nth_frame_Suc)
      qed
    qed
  qed
qed

lemma walked_frames_early:
  "frame \<noteq> 0 \<Longrightarrow> length (walked_frames env frame i) < nat (MAX_STACK_FRAMES - i) \<Longrightarrow>
     return_address env (nth_frame env frame (length (walked_frames env frame i))) = 0 \<or>
     (0 < length (walked_frames env frame i) \<and>
      \<not> link_ok env (nth_frame env frame (length (walked_frames env frame i) - 1)))"
proof (induction env frame i rule: walked_frames.induct)
  case (1 env frame i)
  from "1.prems" have i: "i < MAX_STACK_FRAMES" by simp
  show ?case
  proof (cases "return_address env frame = 0")
    case True
    then have "walked_frames env frame i = []" by (subst walked_frames_unfold) simp
    with True show ?thesis by simp
  next
    case ret: False
    show ?thesis
    proof (cases "link_ok env frame")
      case False
      have "walked_frames env frame i = [(i, return_address env frame)]"
        using ret i "1.prems" False by (subst walked_frames_unfold) simp
      with False show ?thesis by simp
    next
      case True
      have eq: "walked_frames env frame i =
          (i, return_address env frame) # walked_frames env (frame_link env frame) (i + 1)"
        using ret i "1.prems" True by (subst walked_frames_unfold) simp
      let ?rest = "walked_frames env (frame_link env frame) (i + 1)"
      have len: "length ?rest < nat (MAX_STACK_FRAMES - (i + 1))"
        using "1.prems" eq by simp
      have "return_address env (nth_frame env (frame_link env frame) (length ?rest)) = 0 \<or>
          (0 < length ?rest \<and> \<not> link_ok env (nth_frame env (frame_link env frame) (length ?rest - 1)))"
        using ret i "1.prems" True len link_ok_nonzero[OF True]
        by (intro "1.IH"[where x = "return_address env frame" and xa = "frame_link env frame"])
           (auto simp: return_address_def link_ok_def frame_link_def not_le)
      then show ?thesis
      proof
        assume "return_address env (nth_frame env (frame_link env frame) (length ?rest)) = 0"
        then show ?thesis by (simp add: eq nth_frame_Suc)
      next
        assume a: "0 < length ?rest \<and> \<not> link_ok env (nth_frame env (frame_link env frame) (length ?rest - 1))"
        then obtain j where j: "length ?rest = Suc j" by (cases "length ?rest") auto
        with a show ?thesis by (simp add: eq nth_frame_Suc)
      qed
    qed
  qed
qed

lemma walked_frames_stop_at:
  "frame \<noteq> 0 \<Longrightarrow> i + int m < MAX_STACK_FRAMES \<Longrightarrow>
   (\<forall>k<m. return_address env (nth_frame env frame k) \<noteq> 0 \<and> link_ok env (nth_frame env frame k)) \<Longrightarrow>
   return_address env (nth_frame env frame m) \<noteq> 0 \<Longrightarrow> \<not> link_ok env (nth_frame env frame m) \<Longrightarrow>
   walked_frames env frame i = map (\<lambda>k. (i + int k, return_address env (nth_frame env frame k))) [0..<Suc m]"
proof (induction m arbitrary: frame i)
  case 0
  then show ?case by (subst walked_frames_unfold) simp
next
  case (Suc m)
  from Suc.prems have ret: "return_address env frame \<noteq> 0" and ok: "link_ok env frame"
    by (metis nth_frame_0 zero_less_Suc)+
  have eq: "walked_frames env frame i =
      (i, return_address env frame) # walked_frames env (frame_link env frame) (i + 1)"
    using ret ok Suc.prems by (subst walked_frames_unfold) simp
  have "walked_frames env (frame_link env frame) (i + 1) =
      map (\<lambda>k. (i + 1 + int k, return_address env (nth_frame env (frame_link env frame) k))) [0..<Suc m]"
  proof (rule Suc.IH)
    show "frame_link env frame \<noteq> 0" by (rule link_ok_nonzero[OF ok])
    show "i + 1 + int m < MAX_STACK_FRAMES" using Suc.prems by simp
    show "\<forall>k<m. return_address env (nth_frame env (frame_link env frame) k) \<noteq> 0 \<and>
        link_ok env (nth_frame env (frame_link env frame) k)"
      using Suc.prems(3) by (auto simp: nth_frame_Suc[symmetric])
    show "return_address env (nth_frame env (frame_link env frame) m) \<noteq> 0"
      using Suc.prems(4) by (simp add: nth_frame_Suc)
    show "\<not> link_ok env (nth_frame env (frame_link env frame) m)"
      using Suc.prems(5) by (simp add: nth_frame_Suc)
  qed
  then show ?case
    unfolding eq by (subst map_upt_Suc) (simp add: nth_frame_Suc del: upt_Suc)
qed

lemma walked_frames_demangle:
  "walked_frames (env\<lparr>cxa_demangle := d\<rparr>) frame i = walked_frames env frame i"
proof (induction env frame i rule: walked_frames.induct)
  case (1 env frame i)
  show ?case
  proof (cases "frame \<noteq> 0 \<and> i < MAX_STACK_FRAMES \<and> return_address env frame \<noteq> 0 \<and> link_ok env frame")
    case True
    then have "walked_frames (env\<lparr>cxa_demangle := d\<rparr>) (frame_link env frame) (i + 1) =
        walked_frames env (frame_link env frame) (i + 1)"
      by (intro "1.IH"[where x = "return_address env frame" and xa = "frame_link env frame"])
         (auto simp: return_address_def link_ok_def frame_link_def not_le)
    then show ?thesis
      by (subst walked_frames_unfold, subst (2) walked_frames_unfold)
         (simp add: return_address_def link_ok_def frame_link_def)
  next
    case False
    then show ?thesis
      by (subst walked_frames_unfold, subst (2) walked_frames_unfold)
         (auto simp add: return_address_def link_ok_def frame_link_def)
  qed
qed

lemma nth_frame_1: "nth_frame env frame (Suc 0) = frame_link env frame"
  by (simp add: nth_frame_def)

lemma nth_frame_2: "nth_frame env frame 2 = frame_link env (frame_link env frame)"
  by (simp add: nth_frame_def numeral_2_eq_2)

lemma cycle_not_ok:
  assumes "2 \<le> N" and "\<forall>k<N. link_ok env (nth_frame env frame k)"
    and "frame_link env (nth_frame env frame N) = nth_frame env frame (N - 2)"
  shows "\<not> link_ok env (nth_frame env frame N)"
proof -
  obtain m where N: "N = Suc (Suc m)"
    using assms(1) by (metis Suc_le_D numeral_2_eq_2 Suc_le_mono)
  have "link_ok env (nth_frame env frame m)" "link_ok env (nth_frame env frame (Suc m))"
    using assms(2) N by simp_all
  then have "nth_frame env frame m < nth_frame env frame (Suc m)"
    "nth_frame env frame (Suc m) < nth_frame env frame (Suc (Suc m))"
    by (simp_all add: link_ok_def nth_frame_Suc')
  then have "nth_frame env frame m < nth_frame env frame (Suc (Suc m))"
    by (rule less_trans)
  moreover have "frame_link env (nth_frame env frame (Suc (Suc m))) = nth_frame env frame m"
    using assms(3) N by simp
  ultimately have "\<not> nth_frame env frame (Suc (Suc m)) < frame_link env (nth_frame env frame (Suc (Suc m)))"
    by (simp only: not_less less_imp_le)
  then show ?thesis
    unfolding N link_ok_def by blast
qed

subsection \<open>The text of the report\<close>

lemma strrchr_None: "strrchr s c = None \<longleftrightarrow> c \<notin> set s"
  by (induction s) (auto split: option.splits)

lemma strrchr_tail:
  "(case strrchr s c of Some r \<Rightarrow> tl r | None \<Rightarrow> s) = rev (takeWhile (\<lambda>x. x \<noteq> c) (rev s))"
proof (induction s)
  case Nil
  show ?case by simp
next
  case (Cons x xs)
  show ?case
  proof (cases "strrchr xs c")
    case None
    then have "c \<notin> set xs" by (simp add: strrchr_None)
    then have "takeWhile (\<lambda>x. x \<noteq> c) (rev xs) = rev xs"
      by (intro takeWhile_eq_all_conv[THEN iffD2]) auto
    with None show ?thesis by (simp add: takeWhile_append)
  next
    case (Some r)
    then have "c \<in> set (rev xs)" using strrchr_None[of xs c] by simp
    then have "takeWhile (\<lambda>x. x \<noteq> c) (rev xs @ [x]) = takeWhile (\<lambda>x. x \<noteq> c) (rev xs)"
      by (rule takeWhile_append1) simp
    with Some Cons show ?thesis by simp
  qed
qed

lemma image_name_final:
  "image_name env ip = (case resolved_module env ip of None \<Rightarrow> ''???'' | Some path \<Rightarrow> final_component path)"
  using strrchr_tail[of _ "CHR ''/''"]
  by (simp add: image_name_def resolved_module_def final_component_def split: option.splits)

lemma print_symbol_suffix:
  "print_symbol env buffer ip =
     seprintf buffer
       (case resolved_symbol env ip of
          None \<Rightarrow> []
        | Some (sname, start) \<Rightarrow>
            '' ('' @ shown_symbol env sname @ '' + '' @ fmt_d (sym_offset ip start) @ '')'')"
  by (simp add: print_symbol_def resolved_symbol_def shown_symbol_def Let_def split: option.splits)

lemma print_frame_trace_line: "print_frame env buffer f = seprintf buffer (trace_line env f)"
  by (cases f)
     (simp add: print_frame_def trace_line_def Let_def print_symbol_suffix seprintf_seprintf
        image_name_final)

lemma foldl_print_frame:
  "foldl (print_frame env) buffer fs = seprintf buffer (concat (map (trace_line env) fs))"
  by (induction fs arbitrary: buffer) (simp_all add: print_frame_trace_line seprintf_seprintf)

lemma LogStacktrace_text: "LogStacktrace env buffer = seprintf buffer (stacktrace_text env)"
  by (simp add: LogStacktrace_def Let_def stack_loop_walked_frames foldl_print_frame
      seprintf_seprintf stacktrace_text_def)

lemma FillCrashLog_text: "FillCrashLog env sig buffer = seprintf buffer (report_text env sig)"
  by (simp add: FillCrashLog_def Let_def LogOSVersion_def LogError_def LogStacktrace_text
      foldl_seprintf seprintf_seprintf report_text_def)

lemma sym_offset_signed:
  "- (2 ^ (LENGTH('a) - 1)) \<le> sint ip - sint start \<Longrightarrow> sint ip - sint start < 2 ^ (LENGTH('a) - 1) \<Longrightarrow>
     sym_offset (ip :: 'a::len word) start = sint ip - sint start"
  by (simp add: sym_offset_def sint_word_ariths signed_take_bit_int_eq_self)

lemma sym_offset_unsigned:
  "- (2 ^ (LENGTH('a) - 1)) \<le> uint ip - uint start \<Longrightarrow> uint ip - uint start < 2 ^ (LENGTH('a) - 1) \<Longrightarrow>
     sym_offset (ip :: 'a::len word) start = uint ip - uint start"
proof -
  assume range: "- (2 ^ (LENGTH('a) - 1)) \<le> uint ip - uint start"
    "uint ip - uint start < 2 ^ (LENGTH('a) - 1)"
  have "sym_offset ip start =
      signed_take_bit (LENGTH('a) - 1) (take_bit LENGTH('a) (uint ip - uint start))"
    by (simp add: sym_offset_def sint_uint uint_word_arith_bintrs)
  also have "\<dots> = signed_take_bit (LENGTH('a) - 1) (uint ip - uint start)"
    by (simp add: signed_take_bit_take_bit)
  also have "\<dots> = uint ip - uint start"
    using range by (simp add: signed_take_bit_int_eq_self)
  finally show ?thesis .
qed

text \<open>Decimal rendering can be read back, so different numbers are rendered differently.\<close>

lemma digit_value_digit_char: "d < 10 \<Longrightarrow> digit_value (digit_char d) = d"
proof -
  assume "d < 10"
  then have "d = 0 \<or> d = 1 \<or> d = 2 \<or> d = 3 \<or> d = 4 \<or> d = 5 \<or> d = 6 \<or> d = 7 \<or> d = 8 \<or> d = 9"
    by arith
  then show ?thesis
    by (elim disjE) (simp_all add: digit_value_def digit_char_def)
qed

lemma digit_char_not_minus: "d < 10 \<Longrightarrow> digit_char d \<noteq> CHR ''-''"
proof -
  assume "d < 10"
  then have "d = 0 \<or> d = 1 \<or> d = 2 \<or> d = 3 \<or> d = 4 \<or> d = 5 \<or> d = 6 \<or> d = 7 \<or> d = 8 \<or> d = 9"
    by arith
  then show ?thesis
    by (elim disjE) (simp_all add: digit_char_def)
qed

lemma read_dec_digits: "foldl (\<lambda>a c. 10 * a + digit_value c) 0 (dec_digits n) = n"
proof (induction n rule: dec_digits.induct)
  case (1 n)
  show ?case
  proof (cases "n < 10")
    case True
    then show ?thesis
      by (subst dec_digits.simps) (simp add: digit_value_digit_char)
  next
    case False
    with 1 show ?thesis
      by (subst dec_digits.simps) (simp add: digit_value_digit_char)
  qed
qed

lemma dec_digits_inj: "dec_digits m = dec_digits n \<Longrightarrow> m = n"
  by (metis read_dec_digits)

lemma hd_dec_digits: "hd (dec_digits n) \<noteq> CHR ''-'' \<and> dec_digits n \<noteq> []"
proof (induction n rule: dec_digits.induct)
  case (1 n)
  show ?case
  proof (cases "n < 10")
    case True
    then show ?thesis
      by (subst (1 2) dec_digits.simps) (simp add: digit_char_not_minus)
  next
    case False
    with 1 show ?thesis
      by (subst (1 2) dec_digits.simps) simp
  qed
qed

lemma fmt_d_inj: "fmt_d a = fmt_d b \<Longrightarrow> a = b"
proof -
  assume eq: "fmt_d a = fmt_d b"
  have neq: "CHR ''-'' # dec_digits m \<noteq> dec_digits n" for m n
    using hd_dec_digits[of n] by (cases "dec_digits n") auto
  show ?thesis
  proof (cases "a < 0")
    case True
    show ?thesis
    proof (cases "b < 0")
      case bneg: True
      with True eq have "nat (- a) = nat (- b)"
        by (simp add: fmt_d_def dec_digits_inj)
      with True bneg show ?thesis by simp
    next
      case False
      with True eq neq show ?thesis by (simp add: fmt_d_def)
    qed
  next
    case False
    show ?thesis
    proof (cases "b < 0")
      case True
      with False eq neq[of "nat (- b)" "nat a"] show ?thesis by (simp add: fmt_d_def)
    next
      case bpos: False
      with False eq have "nat a = nat b"
        by (simp add: fmt_d_def dec_digits_inj)
      with False bpos show ?thesis by simp
    qed
  qed
qed

subsection \<open>The calls of the handler\<close>

lemma trace_emit [simp]: "trace (emit e w) = trace w @ [e]"
  by (simp add: emit_def)

lemma dispositions_emit [simp]: "dispositions (emit e w) = dispositions w"
  by (simp add: emit_def)

lemma trace_signal [simp]: "trace (signal sig h w) = trace w @ [Ev_signal sig h]"
  by (simp add: signal_def)

lemma dispositions_signal [simp]: "dispositions (signal sig h w) = (dispositions w)(sig := h)"
  by (simp add: signal_def)

lemma trace_foldl_signal:
  "trace (foldl (\<lambda>w i. signal i h w) w sigs) = trace w @ map (\<lambda>i. Ev_signal i h) sigs"
  by (induction sigs arbitrary: w) simp_all

lemma dispositions_foldl_signal:
  "dispositions (foldl (\<lambda>w i. signal i h w) w sigs) i =
     (if i \<in> set sigs then h else dispositions w i)"
  by (induction sigs arbitrary: w) simp_all

lemma trace_set_signal_handlers:
  "trace (set_signal_handlers h w) = trace w @ map (\<lambda>i. Ev_signal i h) signals_to_handle"
  by (simp add: set_signal_handlers_def trace_foldl_signal)

lemma dispositions_set_signal_handlers:
  "dispositions (set_signal_handlers h w) i =
     (if i \<in> set signals_to_handle then h else dispositions w i)"
  by (simp add: set_signal_handlers_def dispositions_foldl_signal)

lemma trace_ShowMacDialog [simp]:
  "trace (ShowMacDialog t m b w) = trace w @ [Ev_ShowMacDialog t m b]"
  by (simp add: ShowMacDialog_def)

lemma dispositions_ShowMacDialog [simp]: "dispositions (ShowMacDialog t m b w) = dispositions w"
  by (simp add: ShowMacDialog_def)

lemma trace_printf [simp]: "trace (printf s w) = trace w @ [Ev_printf s]"
  by (simp add: printf_def)

lemma dispositions_printf [simp]: "dispositions (printf s w) = dispositions w"
  by (simp add: printf_def)

lemma trace_abort [simp]: "trace (abort w) = trace w @ [Ev_abort]"
  by (simp add: abort_def)

lemma dispositions_abort [simp]: "dispositions (abort w) = dispositions w"
  by (simp add: abort_def)

lemma MakeCrashLog_trace:
  "trace (snd (snd (MakeCrashLog env this w))) = trace w @
     [Ev_printf ''Crash encountered, generating crash log...\<newline>'',
      Ev_FillCrashLog,
      Ev_printf (crash_report env (signum this) @ ''\<newline>''),
      Ev_printf ''Crash log generated.\<newline>\<newline>'',
      Ev_printf ''Writing crash log to disk...\<newline>'',
      Ev_WriteCrashLog (crash_report env (signum this)),
      Ev_printf ''Writing crash savegame...\<newline>'',
      Ev_WriteSavegame,
      Ev_printf ''Writing crash screenshot...\<newline>'',
      Ev_WriteScreenshot]"
  by (simp add: MakeCrashLog_def Let_def crash_report_def)

lemma MakeCrashLog_dispositions:
  "dispositions (snd (snd (MakeCrashLog env this w))) = dispositions w"
  by (simp add: MakeCrashLog_def Let_def)

lemma MakeCrashLog_result:
  "fst (MakeCrashLog env this w) =
     (fst (WriteCrashLog env (crash_report env (signum this)) (filename_log this)) \<and>
      fst (WriteSavegame env (filename_save this)) \<and>
      fst (WriteScreenshot env (filename_screenshot this)))"
  by (simp add: MakeCrashLog_def Let_def crash_report_def)

lemma MakeCrashLog_object:
  "fst (snd (MakeCrashLog env this w)) =
     \<lparr>signum = signum this,
      filename_log = kept_path (WriteCrashLog env (crash_report env (signum this)) (filename_log this)),
      filename_save = kept_path (WriteSavegame env (filename_save this)),
      filename_screenshot = kept_path (WriteScreenshot env (filename_screenshot this))\<rparr>"
  by (simp add: MakeCrashLog_def Let_def crash_report_def kept_path_def)

lemma gui_available_result:
  "fst (gui_available env w) = (VideoDriver_GetInstance env \<noteq> Some False)"
  by (simp add: gui_available_def Let_def split: option.splits)

lemma gui_available_trace:
  "trace (snd (gui_available env w)) = trace w @
     (case VideoDriver_GetInstance env of
        None \<Rightarrow> [Ev_VideoDriver_GetInstance]
      | Some has_gui \<Rightarrow> [Ev_VideoDriver_GetInstance, Ev_VideoDriver_GetInstance, Ev_HasGUI])"
  by (simp add: gui_available_def Let_def split: option.splits)

lemma gui_available_dispositions:
  "dispositions (snd (gui_available env w)) = dispositions w"
  by (simp add: gui_available_def Let_def split: option.splits)

lemma DisplayCrashDialog_trace:
  "trace (DisplayCrashDialog this w) = trace w @
     [Ev_ShowMacDialog crash_title (take 1023 (crash_dialog_text this)) ''Quit'']"
  by (simp add: DisplayCrashDialog_def Let_def seprintf_def new_cbuf_def)

lemma DisplayCrashDialog_dispositions:
  "dispositions (DisplayCrashDialog this w) = dispositions w"
  by (simp add: DisplayCrashDialog_def Let_def)

lemma HandleCrash_trace:
  "trace (HandleCrash env sig w) = trace w @
     map (\<lambda>i. Ev_signal i SIG_DFL) signals_to_handle @
     Ev_GamelogTestEmergency #
     (if GamelogTestEmergency env then
        [Ev_ShowMacDialog crash_title
           ''As you loaded an emergency savegame no crash information will be generated.\<newline>'' ''Quit'',
         Ev_abort]
      else
        Ev_SaveloadCrashWithMissingNewGRFs #
        (if SaveloadCrashWithMissingNewGRFs env then
           [Ev_ShowMacDialog crash_title
              ''As you loaded an savegame for which you do not have the required NewGRFs no crash information will be generated.\<newline>'' ''Quit'',
            Ev_abort]
         else
           full_report_calls env sig @ notification_calls env sig @ [Ev_AfterCrashLogCleanup, Ev_abort]))"
  by (simp add: HandleCrash_def Let_def trace_set_signal_handlers MakeCrashLog_trace
      gui_available_trace gui_available_result DisplayCrashDialog_trace MakeCrashLog_object
      crash_title_def full_report_calls_def notification_calls_def crashlog_after_def
      log_result_def save_result_def screenshot_result_def new_CrashLogOSX_def
      split: option.splits)

lemma HandleCrash_dispositions:
  "dispositions (HandleCrash env sig w) i =
     (if i \<in> set signals_to_handle then SIG_DFL else dispositions w i)"
  by (simp add: HandleCrash_def Let_def dispositions_set_signal_handlers MakeCrashLog_dispositions
      gui_available_dispositions DisplayCrashDialog_dispositions)

lemma dispositions_after_append:
  "dispositions_after d (es @ es') = dispositions_after (dispositions_after d es) es'"
  by (simp add: dispositions_after_def)

lemma dispositions_after_signals:
  "dispositions_after d (map (\<lambda>i. Ev_signal i h) sigs) i = (if i \<in> set sigs then h else d i)"
  by (induction sigs arbitrary: d) (simp_all add: dispositions_after_def)

lemma dispositions_after_no_signal:
  "\<forall>e\<in>set es. \<not> is_signal_call e \<Longrightarrow> dispositions_after d es = d"
proof (induction es arbitrary: d)
  case Nil
  show ?case by (simp add: dispositions_after_def)
next
  case (Cons e es)
  then have "apply_event d e = d" by (cases e) simp_all
  with Cons show ?case by (simp add: dispositions_after_def)
qed

text \<open>What \<^verbatim>\<open>HandleCrash\<close> calls after the dispositions are restored.\<close>

lemma HandleCrash_calls:
  "calls_of (HandleCrash env sig) w =
     map (\<lambda>i. Ev_signal i SIG_DFL) signals_to_handle @
     Ev_GamelogTestEmergency #
     (if GamelogTestEmergency env then
        [Ev_ShowMacDialog crash_title
           ''As you loaded an emergency savegame no crash information will be generated.\<newline>'' ''Quit'',
         Ev_abort]
      else
        Ev_SaveloadCrashWithMissingNewGRFs #
        (if SaveloadCrashWithMissingNewGRFs env then
           [Ev_ShowMacDialog crash_title
              ''As you loaded an savegame for which you do not have the required NewGRFs no crash information will be generated.\<newline>'' ''Quit'',
            Ev_abort]
         else
           full_report_calls env sig @ notification_calls env sig @ [Ev_AfterCrashLogCleanup, Ev_abort]))"
  by (simp add: calls_of_def HandleCrash_trace)

lemma HandleCrash_trace_calls:
  "trace (HandleCrash env sig w) = trace w @ calls_of (HandleCrash env sig) w"
  by (simp add: calls_of_def HandleCrash_trace)

lemma no_signal_full_report_calls: "\<forall>e\<in>set (full_report_calls env sig). \<not> is_signal_call e"
  by (simp add: full_report_calls_def)

lemma no_signal_notification_calls: "\<forall>e\<in>set (notification_calls env sig). \<not> is_signal_call e"
  by (auto simp: notification_calls_def split: option.splits)

lemma HandleCrash_calls_split:
  "\<exists>rest. calls_of (HandleCrash env sig) w =
       map (\<lambda>i. Ev_signal i SIG_DFL) signals_to_handle @ Ev_GamelogTestEmergency # rest \<and>
     (\<forall>e\<in>set rest. \<not> is_signal_call e)"
  using no_signal_full_report_calls[of env sig] no_signal_notification_calls[of env sig]
  by (auto simp: HandleCrash_calls)

lemma length_signals_to_handle: "length signals_to_handle = 6"
  by (simp add: signals_to_handle_def)

lemma MakeCrashLog_calls:
  "calls_of (\<lambda>w. snd (snd (MakeCrashLog env this w))) w = full_report_calls env (signum this)"
  by (simp add: calls_of_def MakeCrashLog_trace full_report_calls_def)

lemma DisplayCrashDialog_calls:
  "calls_of (DisplayCrashDialog this) w =
     [Ev_ShowMacDialog crash_title (take 1023 (crash_dialog_text this)) ''Quit'']"
  by (simp add: calls_of_def DisplayCrashDialog_trace)

lemma crash_dialog_text_fits:
  "length (filename_log this) + length (filename_save this) + length (filename_screenshot this) \<le> 805 \<Longrightarrow>
     take 1023 (crash_dialog_text this) = crash_dialog_text this"
  by (simp add: crash_dialog_text_def)

subsection \<open>The concrete situations, evaluated\<close>

lemma replicate_numeral: "replicate (numeral k) x = x # replicate (pred_numeral k) x"
  by (simp add: numeral_eq_Suc)

lemmas example_simps =
  example_env_def example_memory_def example_dladdr_def return_address_def frame_link_def
  link_ok_def frame_slot_def IS_ALIGNED_def ip_slot_def MAX_STACK_FRAMES_def

lemmas resolve_simps =
  trace_line_def resolved_module_def resolved_symbol_def final_component_def shown_symbol_def

lemmas format_simps =
  sym_offset_def fmt_d_def fmt_02d_def fmt_m20s_def pad_right_def pad_left_def
  PRINTF_PTR_def dec_digits.simps hex_digits.simps digit_char_def replicate_numeral

lemma example_walked_frames:
  "walked_frames example_env 0x1000 0 = [(0, 0xAAA0), (1, 0xBBB0), (2, 0xCCC0)]"
  by (simp add: walked_frames_unfold example_simps)

lemma example_trace_lines:
  "trace_line example_env (0, 0xAAA0) = '' [00] libfoo.dylib         0x000000000000aaa0 (foo() + -16)\<newline>''"
  "trace_line example_env (1, 0xBBB0) = '' [01] openttd              0x000000000000bbb0\<newline>''"
  "trace_line example_env (2, 0xCCC0) = '' [02] ???                  0x000000000000ccc0\<newline>''"
  by (simp add: resolve_simps example_simps, simp add: format_simps)+

lemma example_stacktrace_text:
  "stacktrace_text example_env =
     ''\<newline>Stacktrace:\<newline>'' @
     '' [00] libfoo.dylib         0x000000000000aaa0 (foo() + -16)\<newline>'' @
     '' [01] openttd              0x000000000000bbb0\<newline>'' @
     '' [02] ???                  0x000000000000ccc0\<newline>'' @
     ''\<newline>''"
proof -
  have "frame_address example_env = 0x1000" by (simp add: example_env_def)
  then show ?thesis
    by (simp add: stacktrace_text_def example_walked_frames example_trace_lines)
qed

lemma example_nth_frame:
  "nth_frame example_env 0x1000 0 = 0x1000"
  "nth_frame example_env 0x1000 1 = 0x1010"
  "nth_frame example_env 0x1000 2 = 0x1020"
  by (simp_all add: nth_frame_1 nth_frame_2 example_simps)

lemma example_chain:
  "return_address example_env 0x1000 = 0xAAA0"
  "return_address example_env 0x1010 = 0xBBB0"
  "return_address example_env 0x1020 = 0xCCC0"
  "frame_link example_env 0x1000 = 0x1010"
  "frame_link example_env 0x1010 = 0x1020"
  "frame_link example_env 0x1020 = 0x1000"
  "link_ok example_env 0x1000"
  "link_ok example_env 0x1010"
  "\<not> link_ok example_env 0x1020"
  by (simp_all add: example_simps)

lemma example_results:
  "log_result example_env sig = (True, ''/home/u/crash.log'')"
  "save_result example_env = (False, ''/home/u/crash.sav'')"
  "screenshot_result example_env = (True, ''/home/u/crash.png'')"
  "log_result headless_env sig = (True, ''/home/u/crash.log'')"
  "save_result headless_env = (False, ''/home/u/crash.sav'')"
  "screenshot_result headless_env = (True, ''/home/u/crash.png'')"
  by (simp_all add: log_result_def save_result_def screenshot_result_def example_env_def
      headless_env_def)

section \<open>The claims\<close>

text \<open>
  C1. The first calls of the handler are the six calls of \<^verbatim>\<open>signal\<close> that restore the
  default disposition of every registered signal, in the order of the table; the call that
  follows them is the first guard predicate; no later call touches a disposition, so at
  every later point of the handler (guard, composition of the report, writing of the
  artifacts, dialog, cleanup, abort) every registered signal is at its default.
\<close>

theorem restore_defaults_first:
  "take 6 (calls_of (HandleCrash env sig) w) = map (\<lambda>i. Ev_signal i SIG_DFL) signals_to_handle \<and>
   6 < length (calls_of (HandleCrash env sig) w) \<and>
   calls_of (HandleCrash env sig) w ! 6 = Ev_GamelogTestEmergency \<and>
   (\<forall>k. 6 \<le> k \<and> k < length (calls_of (HandleCrash env sig) w) \<longrightarrow>
      \<not> is_signal_call (calls_of (HandleCrash env sig) w ! k)) \<and>
   (\<forall>k. 6 \<le> k \<longrightarrow> (\<forall>i\<in>set signals_to_handle.
      dispositions_after (dispositions w) (take k (calls_of (HandleCrash env sig) w)) i = SIG_DFL)) \<and>
   trace (HandleCrash env sig w) = trace w @ calls_of (HandleCrash env sig) w \<and>
   dispositions (HandleCrash env sig w) =
     dispositions_after (dispositions w) (calls_of (HandleCrash env sig) w)"
proof -
  let ?restore = "map (\<lambda>i. Ev_signal i SIG_DFL) signals_to_handle"
  obtain rest where calls: "calls_of (HandleCrash env sig) w = ?restore @ Ev_GamelogTestEmergency # rest"
    and rest: "\<forall>e\<in>set rest. \<not> is_signal_call e"
    using HandleCrash_calls_split by blast
  have len: "length ?restore = 6" by (simp add: length_signals_to_handle)
  have take6: "take 6 (calls_of (HandleCrash env sig) w) = ?restore"
    using len by (simp add: calls)
  have later: "\<not> is_signal_call (calls_of (HandleCrash env sig) w ! k)"
    if "6 \<le> k" "k < length (calls_of (HandleCrash env sig) w)" for k
  proof -
    have "calls_of (HandleCrash env sig) w ! k = (Ev_GamelogTestEmergency # rest) ! (k - 6)"
      using that len by (simp add: calls nth_append)
    moreover have "k - 6 < length (Ev_GamelogTestEmergency # rest)"
      using that len by (simp add: calls)
    ultimately show ?thesis
      using rest by (cases "k - 6") simp_all
  qed
  have disp: "dispositions_after (dispositions w) (take k (calls_of (HandleCrash env sig) w)) i = SIG_DFL"
    if "6 \<le> k" "i \<in> set signals_to_handle" for k i
  proof -
    have "take k (calls_of (HandleCrash env sig) w) = ?restore @ take (k - 6) (Ev_GamelogTestEmergency # rest)"
      using that len by (simp add: calls)
    moreover have "\<forall>e\<in>set (take (k - 6) (Ev_GamelogTestEmergency # rest)). \<not> is_signal_call e"
      using rest by (auto dest!: in_set_takeD)
    ultimately show ?thesis
      using that by (simp add: dispositions_after_append dispositions_after_no_signal
          dispositions_after_signals)
  qed
  have final: "dispositions (HandleCrash env sig w) =
      dispositions_after (dispositions w) (calls_of (HandleCrash env sig) w)"
  proof
    fix i
    have "\<forall>e\<in>set (Ev_GamelogTestEmergency # rest). \<not> is_signal_call e"
      using rest by simp
    then show "dispositions (HandleCrash env sig w) i =
        dispositions_after (dispositions w) (calls_of (HandleCrash env sig) w) i"
      unfolding calls
      by (simp only: dispositions_after_append dispositions_after_no_signal
          dispositions_after_signals HandleCrash_dispositions)
  qed
  show ?thesis
    using take6 later disp final len
    by (simp add: calls HandleCrash_trace_calls nth_append)
qed

theorem restore_defaults_first_witness:
  "dispositions initial_world SIGSEGV = Handler_HandleCrash \<and>
   take 6 (calls_of (HandleCrash example_env SIGSEGV) initial_world) =
     [Ev_signal SIGSEGV SIG_DFL, Ev_signal SIGABRT SIG_DFL, Ev_signal SIGFPE SIG_DFL,
      Ev_signal SIGBUS SIG_DFL, Ev_signal SIGILL SIG_DFL, Ev_signal SIGSYS SIG_DFL] \<and>
   calls_of (HandleCrash example_env SIGSEGV) initial_world ! 6 = Ev_GamelogTestEmergency \<and>
   dispositions_after (dispositions initial_world)
     (take 7 (calls_of (HandleCrash example_env SIGSEGV) initial_world)) SIGSEGV = SIG_DFL"
proof -
  have "SIGSEGV \<in> set signals_to_handle" "(6::nat) \<le> 7"
    by (simp_all add: signals_to_handle_def)
  moreover have "dispositions initial_world SIGSEGV = Handler_HandleCrash"
    by (simp add: initial_world_def InitialiseCrashLog_def dispositions_set_signal_handlers
        signals_to_handle_def)
  ultimately show ?thesis
    using restore_defaults_first [of example_env SIGSEGV initial_world]
    by (simp add: signals_to_handle_def)
qed

text \<open>
  C2. The walk prints at most 64 frames. A null starting frame prints nothing.
  From a non-null frame, every frame that is printed has a non-null return address, every
  link that is followed is strictly greater than its frame and aligned, and a walk that ends
  before 64 frames ends because the return address of the next frame is null, or because the
  link of the last printed frame is not strictly greater than that frame or fails the
  alignment check. When the link of frame N points back to frame N - 2, frame N is the last
  frame printed: the walk prints frames 0 to N and stops.
\<close>

theorem stack_walk_bounded_and_ends:
  "length (walked_frames env frame 0) \<le> 64 \<and>
   stack_loop env buffer frame 0 = foldl (print_frame env) buffer (walked_frames env frame 0) \<and>
   LogStacktrace env buffer =
     seprintf
       (foldl (print_frame env) (seprintf buffer ''\<newline>Stacktrace:\<newline>'')
          (walked_frames env (frame_address env) 0))
       ''\<newline>'' \<and>
   (frame = 0 \<longrightarrow> walked_frames env frame 0 = []) \<and>
   (\<forall>k < length (walked_frames env frame 0).
      walked_frames env frame 0 ! k = (int k, return_address env (nth_frame env frame k)) \<and>
      return_address env (nth_frame env frame k) \<noteq> 0 \<and>
      (Suc k < length (walked_frames env frame 0) \<longrightarrow>
         nth_frame env frame k < frame_link env (nth_frame env frame k) \<and>
         IS_ALIGNED (env_arch env) (frame_link env (nth_frame env frame k)))) \<and>
   (frame \<noteq> 0 \<and> length (walked_frames env frame 0) < 64 \<longrightarrow>
      return_address env (nth_frame env frame (length (walked_frames env frame 0))) = 0 \<or>
      (0 < length (walked_frames env frame 0) \<and>
       (frame_link env (nth_frame env frame (length (walked_frames env frame 0) - 1))
          \<le> nth_frame env frame (length (walked_frames env frame 0) - 1) \<or>
        \<not> IS_ALIGNED (env_arch env)
            (frame_link env (nth_frame env frame (length (walked_frames env frame 0) - 1)))))) \<and>
   (frame \<noteq> 0 \<and> 2 \<le> N \<and> N < 64 \<and>
    (\<forall>k\<le>N. return_address env (nth_frame env frame k) \<noteq> 0) \<and>
    (\<forall>k<N. link_ok env (nth_frame env frame k)) \<and>
    frame_link env (nth_frame env frame N) = nth_frame env frame (N - 2) \<longrightarrow>
      walked_frames env frame 0 =
        map (\<lambda>k. (int k, return_address env (nth_frame env frame k))) [0..<Suc N])"
proof (intro conjI impI allI)
  show "length (walked_frames env frame 0) \<le> 64"
    using length_walked_frames[of env frame 0] by (simp add: MAX_STACK_FRAMES_def)
  show "stack_loop env buffer frame 0 = foldl (print_frame env) buffer (walked_frames env frame 0)"
    by (rule stack_loop_walked_frames)
  show "LogStacktrace env buffer =
      seprintf
        (foldl (print_frame env) (seprintf buffer ''\<newline>Stacktrace:\<newline>'')
           (walked_frames env (frame_address env) 0))
        ''\<newline>''"
    by (simp add: LogStacktrace_def Let_def stack_loop_walked_frames)
  show "walked_frames env frame 0 = []" if "frame = 0"
    using that by (subst walked_frames_unfold) simp
next
  fix k assume k: "k < length (walked_frames env frame 0)"
  from walked_frames_nth[OF k]
  show "walked_frames env frame 0 ! k = (int k, return_address env (nth_frame env frame k))"
    and "return_address env (nth_frame env frame k) \<noteq> 0"
    by simp_all
  assume "Suc k < length (walked_frames env frame 0)"
  with walked_frames_nth[OF k]
  show "nth_frame env frame k < frame_link env (nth_frame env frame k)"
    and "IS_ALIGNED (env_arch env) (frame_link env (nth_frame env frame k))"
    by (simp_all add: link_ok_def)
next
  assume "frame \<noteq> 0 \<and> length (walked_frames env frame 0) < 64"
  then show "return_address env (nth_frame env frame (length (walked_frames env frame 0))) = 0 \<or>
      (0 < length (walked_frames env frame 0) \<and>
       (frame_link env (nth_frame env frame (length (walked_frames env frame 0) - 1))
          \<le> nth_frame env frame (length (walked_frames env frame 0) - 1) \<or>
        \<not> IS_ALIGNED (env_arch env)
            (frame_link env (nth_frame env frame (length (walked_frames env frame 0) - 1)))))"
    using walked_frames_early[of frame env 0]
    by (auto simp: MAX_STACK_FRAMES_def link_ok_def not_less)
next
  assume a: "frame \<noteq> 0 \<and> 2 \<le> N \<and> N < 64 \<and>
    (\<forall>k\<le>N. return_address env (nth_frame env frame k) \<noteq> 0) \<and>
    (\<forall>k<N. link_ok env (nth_frame env frame k)) \<and>
    frame_link env (nth_frame env frame N) = nth_frame env frame (N - 2)"
  then have "\<not> link_ok env (nth_frame env frame N)"
    by (intro cycle_not_ok) simp_all
  with a show "walked_frames env frame 0 =
      map (\<lambda>k. (int k, return_address env (nth_frame env frame k))) [0..<Suc N]"
    using walked_frames_stop_at[of frame 0 N env] by (simp add: MAX_STACK_FRAMES_def)
qed

theorem stack_walk_bounded_and_ends_witness:
  "frame_link example_env (nth_frame example_env 0x1000 2) = nth_frame example_env 0x1000 (2 - 2) \<and>
   walked_frames example_env 0x1000 0 = [(0, 0xAAA0), (1, 0xBBB0), (2, 0xCCC0)] \<and>
   length (walked_frames example_env 0x1000 0) \<le> 64 \<and>
   \<not> link_ok example_env (nth_frame example_env 0x1000 2)"
proof -
  have le2: "k \<le> 2 \<longleftrightarrow> k = 0 \<or> k = 1 \<or> k = 2" for k :: nat
    by arith
  have ret: "\<forall>k\<le>2. return_address example_env (nth_frame example_env 0x1000 k) \<noteq> 0"
    unfolding le2 using example_nth_frame example_chain by auto
  have lt2: "k < 2 \<longleftrightarrow> k = 0 \<or> k = 1" for k :: nat
    by arith
  have ok: "\<forall>k<2. link_ok example_env (nth_frame example_env 0x1000 k)"
    unfolding lt2 using example_nth_frame example_chain by auto
  have cyc: "frame_link example_env (nth_frame example_env 0x1000 2) = nth_frame example_env 0x1000 (2 - 2)"
    by (simp add: example_nth_frame example_chain)
  have "walked_frames example_env 0x1000 0 =
      map (\<lambda>k. (int k, return_address example_env (nth_frame example_env 0x1000 k))) [0..<Suc 2]"
    using stack_walk_bounded_and_ends [of example_env "0x1000" buffer 2] ret ok cyc by simp
  moreover have "length (walked_frames example_env 0x1000 0) \<le> 64"
    using stack_walk_bounded_and_ends [of example_env "0x1000" buffer 2] by simp
  ultimately show ?thesis
    using cyc
    by (simp add: upt_rec numeral_3_eq_3 nth_frame_Suc' example_chain example_nth_frame)
qed

theorem stack_walk_cycle_counterexample:
  "frame_link example_env (nth_frame example_env (frame_address example_env) 2) =
     nth_frame example_env (frame_address example_env) (2 - 2) \<and>
   map fst (walked_frames example_env (frame_address example_env) 0) = [0, 1, 2] \<and>
   fst (last (walked_frames example_env (frame_address example_env) 0)) \<noteq> 2 - 1"
proof -
  have "frame_address example_env = 0x1000" by (simp add: example_env_def)
  then show ?thesis
    by (simp add: example_walked_frames example_nth_frame example_chain)
qed

text \<open>
  C3. Every write of the report goes through the bounded append: the buffer never holds more
  than its capacity, the capacity does not change, what does not fit is cut without any
  failure, and a report longer than the buffer is cut to exactly the capacity.
\<close>

theorem report_buffer_truncates:
  "FillCrashLog env sig buffer = seprintf buffer (report_text env sig) \<and>
   LogStacktrace env buffer = seprintf buffer (stacktrace_text env) \<and>
   foldl seprintf buffer texts = seprintf buffer (concat texts) \<and>
   last_off (seprintf buffer text) = last_off buffer \<and>
   length (content (seprintf buffer text)) \<le> max (length (content buffer)) (last_off buffer) \<and>
   content (seprintf (new_cbuf n) text) = take (n - 1) text \<and>
   length (content (seprintf (new_cbuf n) text)) = min (length text) (n - 1) \<and>
   crash_report env sig = take 65535 (report_text env sig)"
  by (simp add: FillCrashLog_text LogStacktrace_text foldl_seprintf length_content_seprintf
      content_new_cbuf crash_report_def)

theorem report_buffer_truncates_witness:
  "content (LogStacktrace example_env (new_cbuf 40)) = ''\<newline>Stacktrace:\<newline> [00] libfoo.dylib        '' \<and>
   length (content (LogStacktrace example_env (new_cbuf 40))) = 39 \<and>
   last_off (LogStacktrace example_env (new_cbuf 40)) = 39"
  using report_buffer_truncates [of example_env 0 "new_cbuf 40" "[]" "stacktrace_text example_env" 40]
  by (simp add: example_stacktrace_text new_cbuf_def)

text \<open>
  C4. \<^verbatim>\<open>MakeCrashLog\<close> calls the three writers, in order, whatever the earlier ones
  returned; its result is true exactly when all three succeeded; the path of an artifact is
  empty after a failure, and, the writers filling in a path when they succeed, non-empty
  after a success. With one failure and two successes there is one empty path, two non-empty
  ones, and the result is false.
\<close>

theorem MakeCrashLog_attempts_all:
  assumes "r1 = WriteCrashLog env (crash_report env (signum this)) (filename_log this)"
    and "r2 = WriteSavegame env (filename_save this)"
    and "r3 = WriteScreenshot env (filename_screenshot this)"
    and "paths = [filename_log (fst (snd (MakeCrashLog env this w))),
                  filename_save (fst (snd (MakeCrashLog env this w))),
                  filename_screenshot (fst (snd (MakeCrashLog env this w)))]"
    and "fst r1 \<longrightarrow> snd r1 \<noteq> []" and "fst r2 \<longrightarrow> snd r2 \<noteq> []" and "fst r3 \<longrightarrow> snd r3 \<noteq> []"
  shows "filter is_artifact_call (calls_of (\<lambda>w. snd (snd (MakeCrashLog env this w))) w) =
           [Ev_WriteCrashLog (crash_report env (signum this)), Ev_WriteSavegame, Ev_WriteScreenshot] \<and>
         fst (MakeCrashLog env this w) = (fst r1 \<and> fst r2 \<and> fst r3) \<and>
         map (\<lambda>p. p \<noteq> []) paths = [fst r1, fst r2, fst r3] \<and>
         (length (filter Not [fst r1, fst r2, fst r3]) = 1 \<longrightarrow>
            length (filter (\<lambda>p. p = []) paths) = 1 \<and>
            length (filter (\<lambda>p. p \<noteq> []) paths) = 2 \<and>
            \<not> fst (MakeCrashLog env this w))"
proof -
  have "filter is_artifact_call (calls_of (\<lambda>w. snd (snd (MakeCrashLog env this w))) w) =
      [Ev_WriteCrashLog (crash_report env (signum this)), Ev_WriteSavegame, Ev_WriteScreenshot]"
    by (simp add: MakeCrashLog_calls full_report_calls_def)
  moreover have res: "fst (MakeCrashLog env this w) = (fst r1 \<and> fst r2 \<and> fst r3)"
    using assms(1-3) by (simp add: MakeCrashLog_result)
  moreover have paths: "map (\<lambda>p. p \<noteq> []) paths = [fst r1, fst r2, fst r3]"
    using assms by (simp add: MakeCrashLog_object kept_path_def)
  moreover have "length (filter (\<lambda>p. p = []) paths) = 1 \<and>
      length (filter (\<lambda>p. p \<noteq> []) paths) = 2 \<and> \<not> fst (MakeCrashLog env this w)"
    if "length (filter Not [fst r1, fst r2, fst r3]) = 1"
  proof -
    have "length (filter (\<lambda>p. p = []) paths) = length (filter Not (map (\<lambda>p. p \<noteq> []) paths))"
      by (simp add: filter_map comp_def)
    moreover have "length (filter (\<lambda>p. p \<noteq> []) paths) = length (filter id (map (\<lambda>p. p \<noteq> []) paths))"
      by (simp add: filter_map comp_def)
    ultimately show ?thesis
      using that unfolding paths res by (auto split: if_splits)
  qed
  ultimately show ?thesis by blast
qed

theorem MakeCrashLog_attempts_all_witness:
  "fst (MakeCrashLog example_env (new_CrashLogOSX SIGSEGV) initial_world) = False \<and>
   filename_log (fst (snd (MakeCrashLog example_env (new_CrashLogOSX SIGSEGV) initial_world))) = ''/home/u/crash.log'' \<and>
   filename_save (fst (snd (MakeCrashLog example_env (new_CrashLogOSX SIGSEGV) initial_world))) = [] \<and>
   filename_screenshot (fst (snd (MakeCrashLog example_env (new_CrashLogOSX SIGSEGV) initial_world))) = ''/home/u/crash.png'' \<and>
   length (filter (\<lambda>p. p = [])
     [filename_log (fst (snd (MakeCrashLog example_env (new_CrashLogOSX SIGSEGV) initial_world))),
      filename_save (fst (snd (MakeCrashLog example_env (new_CrashLogOSX SIGSEGV) initial_world))),
      filename_screenshot (fst (snd (MakeCrashLog example_env (new_CrashLogOSX SIGSEGV) initial_world)))]) = 1"
proof -
  let ?log = "new_CrashLogOSX SIGSEGV"
  have r: "WriteCrashLog example_env (crash_report example_env (signum ?log)) (filename_log ?log) = (True, ''/home/u/crash.log'')"
    "WriteSavegame example_env (filename_save ?log) = (False, ''/home/u/crash.sav'')"
    "WriteScreenshot example_env (filename_screenshot ?log) = (True, ''/home/u/crash.png'')"
    by (simp_all add: example_env_def)
  have one: "length (filter Not [fst (True, ''/home/u/crash.log''), fst (False, ''/home/u/crash.sav''),
      fst (True, ''/home/u/crash.png'')]) = 1"
    by simp
  from MakeCrashLog_attempts_all [OF r(1)[symmetric] r(2)[symmetric] r(3)[symmetric] refl, of initial_world]
  have "fst (MakeCrashLog example_env ?log initial_world) = False \<and>
      length (filter (\<lambda>p. p = [])
       [filename_log (fst (snd (MakeCrashLog example_env ?log initial_world))),
        filename_save (fst (snd (MakeCrashLog example_env ?log initial_world))),
        filename_screenshot (fst (snd (MakeCrashLog example_env ?log initial_world)))]) = 1"
    using one by simp
  then show ?thesis
    by (simp add: MakeCrashLog_object kept_path_def r)
qed

text \<open>
  C5. When the emergency-savegame predicate or the missing-NewGRF predicate holds, the handler
  calls neither the report builder nor any artifact writer; after the dispositions and the
  predicates it makes one call of \<^verbatim>\<open>ShowMacDialog\<close>, with the notice that no crash
  information will be generated, and then \<^verbatim>\<open>abort\<close>.
\<close>

theorem guard_skip_minimal_notice:
  "GamelogTestEmergency env \<or> SaveloadCrashWithMissingNewGRFs env \<Longrightarrow>
     filter is_report_call (calls_of (HandleCrash env sig) w) = [] \<and>
     filter is_artifact_call (calls_of (HandleCrash env sig) w) = [] \<and>
     length (filter is_dialog_call (calls_of (HandleCrash env sig) w)) = 1 \<and>
     calls_of (HandleCrash env sig) w =
       map (\<lambda>i. Ev_signal i SIG_DFL) signals_to_handle @
       (if GamelogTestEmergency env then [Ev_GamelogTestEmergency]
        else [Ev_GamelogTestEmergency, Ev_SaveloadCrashWithMissingNewGRFs]) @
       [Ev_ShowMacDialog ''A serious fault condition occurred in the game. The game will shut down.''
          (if GamelogTestEmergency env
           then ''As you loaded an emergency savegame no crash information will be generated.\<newline>''
           else ''As you loaded an savegame for which you do not have the required NewGRFs no crash information will be generated.\<newline>'')
          ''Quit'',
        Ev_abort]"
  by (auto simp: HandleCrash_calls crash_title_def filter_map comp_def)

theorem guard_skip_minimal_notice_witness:
  "GamelogTestEmergency emergency_env \<and>
   filter is_report_call (calls_of (HandleCrash emergency_env SIGSEGV) initial_world) = [] \<and>
   filter is_artifact_call (calls_of (HandleCrash emergency_env SIGSEGV) initial_world) = [] \<and>
   length (filter is_dialog_call (calls_of (HandleCrash emergency_env SIGSEGV) initial_world)) = 1 \<and>
   drop 6 (calls_of (HandleCrash emergency_env SIGSEGV) initial_world) =
     [Ev_GamelogTestEmergency,
      Ev_ShowMacDialog ''A serious fault condition occurred in the game. The game will shut down.''
        ''As you loaded an emergency savegame no crash information will be generated.\<newline>'' ''Quit'',
      Ev_abort]"
proof -
  have g: "GamelogTestEmergency emergency_env"
    by (simp add: emergency_env_def)
  from guard_skip_minimal_notice [of emergency_env SIGSEGV initial_world] g
  show ?thesis by (simp add: signals_to_handle_def)
qed

text \<open>
  C6. For an address with a resolved symbol, the offset printed in the line of the frame is
  the decimal rendering of the machine subtraction \<^verbatim>\<open>(intptr_t)ip - (intptr_t)dli_saddr\<close>
  read as a signed number. Whenever the difference of the two addresses fits the signed
  machine integer, that is exactly address minus symbol start, be the addresses read as
  signed or as unsigned numbers, and in particular it is negative, and printed with a
  minus sign, when the address lies below the symbol start. The rendering determines the
  number.
\<close>

theorem symbol_offset_signed_difference:
  "resolved_symbol env ip = Some (sname, start) \<Longrightarrow>
     print_frame env buffer (i, ip) =
       seprintf buffer
         ('' ['' @ fmt_02d i @ ''] '' @ fmt_m20s (image_name env ip) @ '' '' @ PRINTF_PTR ip @
          '' ('' @ shown_symbol env sname @ '' + '' @ fmt_d (sym_offset ip start) @ '')'' @
          ''\<newline>'') \<and>
     (- (2 ^ (LENGTH('a) - 1)) \<le> sint ip - sint start \<and> sint ip - sint start < 2 ^ (LENGTH('a) - 1) \<longrightarrow>
        sym_offset ip start = sint ip - sint start) \<and>
     (- (2 ^ (LENGTH('a) - 1)) \<le> uint ip - uint start \<and> uint ip - uint start < 2 ^ (LENGTH('a) - 1) \<longrightarrow>
        sym_offset ip start = uint ip - uint start) \<and>
     (sym_offset ip start < 0 \<longrightarrow>
        fmt_d (sym_offset ip start) = CHR ''-'' # dec_digits (nat (- sym_offset ip start))) \<and>
     (fmt_d n = fmt_d (sym_offset ip start) \<longrightarrow> n = sym_offset ip start)"
  for ip :: "'a::len word"
proof -
  assume sym: "resolved_symbol env ip = Some (sname, start)"
  have "print_frame env buffer (i, ip) =
      seprintf buffer
        ('' ['' @ fmt_02d i @ ''] '' @ fmt_m20s (image_name env ip) @ '' '' @ PRINTF_PTR ip @
         '' ('' @ shown_symbol env sname @ '' + '' @ fmt_d (sym_offset ip start) @ '')'' @
         ''\<newline>'')"
    using sym by (simp add: print_frame_trace_line trace_line_def image_name_final)
  then show ?thesis
    using sym_offset_signed[of ip start] sym_offset_unsigned[of ip start]
      fmt_d_inj[of n "sym_offset ip start"]
    by (simp add: fmt_d_def)
qed

theorem symbol_offset_signed_difference_witness:
  "resolved_symbol example_env 0xAAA0 = Some (''_Z3foov'', 0xAAB0) \<and>
   uint (0xAAA0 :: 64 word) - uint (0xAAB0 :: 64 word) = - 16 \<and>
   sym_offset (0xAAA0 :: 64 word) 0xAAB0 = - 16 \<and>
   fmt_d (sym_offset (0xAAA0 :: 64 word) 0xAAB0) = ''-16'' \<and>
   content (print_frame example_env (new_cbuf 1024) (0, 0xAAA0)) =
     '' [00] libfoo.dylib         0x000000000000aaa0 (foo() + -16)\<newline>''"
proof -
  have sym: "resolved_symbol example_env 0xAAA0 = Some (''_Z3foov'', 0xAAB0)"
    by (simp add: resolved_symbol_def example_simps)
  have diff: "uint (0xAAA0 :: 64 word) - uint (0xAAB0 :: 64 word) = - 16"
    by simp
  have off: "sym_offset (0xAAA0 :: 64 word) 0xAAB0 = - 16"
    using symbol_offset_signed_difference [OF sym, of "new_cbuf 1024" 0 0] diff by simp
  have dec: "fmt_d (- 16) = ''-16''"
    by (simp add: fmt_d_def dec_digits.simps digit_char_def)
  have name: "image_name example_env 0xAAA0 = ''libfoo.dylib''" "shown_symbol example_env ''_Z3foov'' = ''foo()''"
    by (simp_all add: image_name_final resolved_module_def final_component_def shown_symbol_def
        example_simps)
  have "content (print_frame example_env (new_cbuf 1024) (0, 0xAAA0)) =
      '' [00] libfoo.dylib         0x000000000000aaa0 (foo() + -16)\<newline>''"
    using symbol_offset_signed_difference [OF sym, of "new_cbuf 1024" 0 0]
    by (simp add: off dec name content_new_cbuf)
       (simp add: fmt_02d_def fmt_m20s_def pad_left_def pad_right_def PRINTF_PTR_def
          dec_digits.simps hex_digits.simps digit_char_def replicate_numeral)
  with sym diff off dec show ?thesis by simp
qed

text \<open>
  C7. The line of a frame shows the final path component of the module name, or \<open>???\<close>
  when no module is resolved; it has no symbol and offset when no symbol is resolved;
  otherwise it shows the demangled name when demangling succeeds and the raw name when it
  fails. The frames that are walked do not depend on what the demangler answers.
\<close>

theorem trace_line_rendering:
  "print_frame env buffer (i, ip) = seprintf buffer (trace_line env (i, ip)) \<and>
   stack_loop env buffer frame j =
     seprintf buffer (concat (map (trace_line env) (walked_frames env frame j))) \<and>
   walked_frames (env\<lparr>cxa_demangle := demangler\<rparr>) frame j = walked_frames env frame j \<and>
   (cxa_demangle env sname = Some readable \<longrightarrow> shown_symbol env sname = readable) \<and>
   (cxa_demangle env sname = None \<longrightarrow> shown_symbol env sname = sname)"
  by (simp add: print_frame_trace_line stack_loop_walked_frames foldl_print_frame
      walked_frames_demangle shown_symbol_def)

theorem trace_line_rendering_witness:
  "content (print_frame example_env (new_cbuf 1024) (0, 0xAAA0)) =
     '' [00] libfoo.dylib         0x000000000000aaa0 (foo() + -16)\<newline>'' \<and>
   content (stack_loop example_env (new_cbuf 1024) 0x1000 0) =
     '' [00] libfoo.dylib         0x000000000000aaa0 (foo() + -16)\<newline>'' @
     '' [01] openttd              0x000000000000bbb0\<newline>'' @
     '' [02] ???                  0x000000000000ccc0\<newline>'' \<and>
   cxa_demangle example_env ''_Z3foov'' = Some ''foo()'' \<and>
   shown_symbol example_env ''_Z3foov'' = ''foo()'' \<and>
   cxa_demangle example_env ''main'' = None \<and>
   shown_symbol example_env ''main'' = ''main''"
  using trace_line_rendering [of example_env "new_cbuf 1024" 0 "0xAAA0" "0x1000" 0 "cxa_demangle example_env" "''_Z3foov''" "''foo()''"]
    trace_line_rendering [of example_env "new_cbuf 1024" 0 "0xAAA0" "0x1000" 0 "cxa_demangle example_env" "''main''" "''main''"]
  by (simp add: example_walked_frames example_trace_lines content_new_cbuf)
     (simp add: example_env_def)

text \<open>
  C8. On the full-report path, when there is no video driver or the video
  driver has a GUI, the handler shows one dialog whose message lists, after its fixed text,
  the path of every artifact that was written and an empty line for every one that failed,
  whichever of them failed; when the video driver has no GUI it shows no dialog. On the
  skip paths it shows one dialog that says that no crash information will be generated.
\<close>

theorem user_told_what_was_generated:
  "(\<not> GamelogTestEmergency env \<and> \<not> SaveloadCrashWithMissingNewGRFs env \<longrightarrow>
      filter is_dialog_call (calls_of (HandleCrash env sig) w) =
        (if VideoDriver_GetInstance env = Some False then []
         else [Ev_ShowMacDialog crash_title
                 (take 1023
                    (''Please send the generated crash information and the last (auto)save to the developers. '' @
                     ''This will greatly help debugging. The correct place to do this is https://github.com/OpenTTD/OpenTTD/issues.\<newline>\<newline>'' @
                     ''Generated file(s):\<newline>'' @
                     kept_path (log_result env sig) @ ''\<newline>'' @
                     kept_path (save_result env) @ ''\<newline>'' @
                     kept_path (screenshot_result env)))
                 ''Quit''])) \<and>
   (length (kept_path (log_result env sig)) + length (kept_path (save_result env)) +
      length (kept_path (screenshot_result env)) \<le> 805 \<longrightarrow>
    take 1023 (crash_dialog_text (crashlog_after env sig)) =
      ''Please send the generated crash information and the last (auto)save to the developers. '' @
      ''This will greatly help debugging. The correct place to do this is https://github.com/OpenTTD/OpenTTD/issues.\<newline>\<newline>'' @
      ''Generated file(s):\<newline>'' @
      kept_path (log_result env sig) @ ''\<newline>'' @
      kept_path (save_result env) @ ''\<newline>'' @
      kept_path (screenshot_result env)) \<and>
   (GamelogTestEmergency env \<longrightarrow>
      filter is_dialog_call (calls_of (HandleCrash env sig) w) =
        [Ev_ShowMacDialog crash_title
           ''As you loaded an emergency savegame no crash information will be generated.\<newline>''
           ''Quit'']) \<and>
   (\<not> GamelogTestEmergency env \<and> SaveloadCrashWithMissingNewGRFs env \<longrightarrow>
      filter is_dialog_call (calls_of (HandleCrash env sig) w) =
        [Ev_ShowMacDialog crash_title
           ''As you loaded an savegame for which you do not have the required NewGRFs no crash information will be generated.\<newline>''
           ''Quit''])"
proof -
  have "take 1023 (crash_dialog_text (crashlog_after env sig)) =
      crash_dialog_text (crashlog_after env sig)"
    if "length (kept_path (log_result env sig)) + length (kept_path (save_result env)) +
      length (kept_path (screenshot_result env)) \<le> 805"
    using that by (intro crash_dialog_text_fits) (simp add: crashlog_after_def)
  then show ?thesis
    by (auto simp: HandleCrash_calls filter_map comp_def full_report_calls_def
        notification_calls_def crashlog_after_def crash_dialog_text_def split: option.splits)
qed

theorem user_told_what_was_generated_witness:
  "\<not> GamelogTestEmergency example_env \<and> \<not> SaveloadCrashWithMissingNewGRFs example_env \<and>
   VideoDriver_GetInstance example_env \<noteq> Some False \<and>
   filter is_dialog_call (calls_of (HandleCrash example_env SIGSEGV) initial_world) =
     [Ev_ShowMacDialog crash_title
        (''Please send the generated crash information and the last (auto)save to the developers. '' @
         ''This will greatly help debugging. The correct place to do this is https://github.com/OpenTTD/OpenTTD/issues.\<newline>\<newline>'' @
         ''Generated file(s):\<newline>/home/u/crash.log\<newline>\<newline>/home/u/crash.png'')
        ''Quit''] \<and>
   GamelogTestEmergency emergency_env \<and>
   filter is_dialog_call (calls_of (HandleCrash emergency_env SIGSEGV) initial_world) =
     [Ev_ShowMacDialog crash_title
        ''As you loaded an emergency savegame no crash information will be generated.\<newline>''
        ''Quit'']"
proof -
  have "\<not> GamelogTestEmergency example_env" "\<not> SaveloadCrashWithMissingNewGRFs example_env"
    "VideoDriver_GetInstance example_env \<noteq> Some False" "GamelogTestEmergency emergency_env"
    by (simp_all add: example_env_def emergency_env_def)
  then show ?thesis
    using user_told_what_was_generated [of example_env SIGSEGV initial_world]
      user_told_what_was_generated [of emergency_env SIGSEGV initial_world]
    by (simp add: example_results kept_path_def)
qed

theorem user_not_told_counterexample:
  "\<not> GamelogTestEmergency headless_env \<and> \<not> SaveloadCrashWithMissingNewGRFs headless_env \<and>
   fst (log_result headless_env SIGSEGV) \<and>
   filter is_artifact_call (calls_of (HandleCrash headless_env SIGSEGV) initial_world) =
     [Ev_WriteCrashLog (crash_report headless_env SIGSEGV), Ev_WriteSavegame, Ev_WriteScreenshot] \<and>
   filter is_dialog_call (calls_of (HandleCrash headless_env SIGSEGV) initial_world) = [] \<and>
   filter is_printf_call (calls_of (HandleCrash headless_env SIGSEGV) initial_world) =
     [Ev_printf ''Crash encountered, generating crash log...\<newline>'',
      Ev_printf (crash_report headless_env SIGSEGV @ ''\<newline>''),
      Ev_printf ''Crash log generated.\<newline>\<newline>'',
      Ev_printf ''Writing crash log to disk...\<newline>'',
      Ev_printf ''Writing crash savegame...\<newline>'',
      Ev_printf ''Writing crash screenshot...\<newline>'']"
proof -
  have "\<not> GamelogTestEmergency headless_env" "\<not> SaveloadCrashWithMissingNewGRFs headless_env"
    "VideoDriver_GetInstance headless_env = Some False"
    by (simp_all add: example_env_def headless_env_def)
  then show ?thesis
    by (simp add: HandleCrash_calls filter_map comp_def full_report_calls_def
        notification_calls_def example_results)
qed

text \<open>
  C9. The three path buffers are empty in a new \<^verbatim>\<open>CrashLogOSX\<close>. After
  \<^verbatim>\<open>MakeCrashLog\<close> each holds the path its writer filled in if the writer succeeded, and is
  empty if it failed; the writers filling in a path when they succeed, a buffer is non-empty
  exactly when its artifact was written. The dialog shows these three buffers after its
  fixed text, cut to the 1023 characters of the message buffer, which is never reached
  when the three paths together have at most 805 characters.
\<close>

theorem filename_buffers_invariant:
  assumes "r1 = WriteCrashLog env (crash_report env (signum this)) (filename_log this)"
    and "r2 = WriteSavegame env (filename_save this)"
    and "r3 = WriteScreenshot env (filename_screenshot this)"
    and "after = fst (snd (MakeCrashLog env this w))"
  shows "filename_log (new_CrashLogOSX sig) = [] \<and>
         filename_save (new_CrashLogOSX sig) = [] \<and>
         filename_screenshot (new_CrashLogOSX sig) = [] \<and>
         filename_log after = (if fst r1 then snd r1 else []) \<and>
         filename_save after = (if fst r2 then snd r2 else []) \<and>
         filename_screenshot after = (if fst r3 then snd r3 else []) \<and>
         ((fst r1 \<longrightarrow> snd r1 \<noteq> []) \<longrightarrow> (filename_log after \<noteq> [] \<longleftrightarrow> fst r1)) \<and>
         ((fst r2 \<longrightarrow> snd r2 \<noteq> []) \<longrightarrow> (filename_save after \<noteq> [] \<longleftrightarrow> fst r2)) \<and>
         ((fst r3 \<longrightarrow> snd r3 \<noteq> []) \<longrightarrow> (filename_screenshot after \<noteq> [] \<longleftrightarrow> fst r3)) \<and>
         calls_of (DisplayCrashDialog after) v =
           [Ev_ShowMacDialog crash_title
              (take 1023
                 (''Please send the generated crash information and the last (auto)save to the developers. '' @
                  ''This will greatly help debugging. The correct place to do this is https://github.com/OpenTTD/OpenTTD/issues.\<newline>\<newline>'' @
                  ''Generated file(s):\<newline>'' @
                  filename_log after @ ''\<newline>'' @ filename_save after @ ''\<newline>'' @
                  filename_screenshot after))
              ''Quit''] \<and>
         (length (filename_log after) + length (filename_save after) +
            length (filename_screenshot after) \<le> 805 \<longrightarrow>
          take 1023 (crash_dialog_text after) = crash_dialog_text after)"
  using assms
  by (simp add: new_CrashLogOSX_def MakeCrashLog_object kept_path_def DisplayCrashDialog_calls
      crash_dialog_text_def)

theorem filename_buffers_invariant_witness:
  "filename_log (fst (snd (MakeCrashLog example_env (new_CrashLogOSX SIGSEGV) initial_world))) = ''/home/u/crash.log'' \<and>
   filename_save (fst (snd (MakeCrashLog example_env (new_CrashLogOSX SIGSEGV) initial_world))) = [] \<and>
   filename_screenshot (fst (snd (MakeCrashLog example_env (new_CrashLogOSX SIGSEGV) initial_world))) = ''/home/u/crash.png'' \<and>
   calls_of (DisplayCrashDialog (fst (snd (MakeCrashLog example_env (new_CrashLogOSX SIGSEGV) initial_world)))) initial_world =
     [Ev_ShowMacDialog crash_title
        (''Please send the generated crash information and the last (auto)save to the developers. '' @
         ''This will greatly help debugging. The correct place to do this is https://github.com/OpenTTD/OpenTTD/issues.\<newline>\<newline>'' @
         ''Generated file(s):\<newline>/home/u/crash.log\<newline>\<newline>/home/u/crash.png'')
        ''Quit'']"
proof -
  let ?log = "new_CrashLogOSX SIGSEGV"
  have r: "WriteCrashLog example_env (crash_report example_env (signum ?log)) (filename_log ?log) = (True, ''/home/u/crash.log'')"
    "WriteSavegame example_env (filename_save ?log) = (False, ''/home/u/crash.sav'')"
    "WriteScreenshot example_env (filename_screenshot ?log) = (True, ''/home/u/crash.png'')"
    by (simp_all add: example_env_def)
  from filename_buffers_invariant [OF r(1)[symmetric] r(2)[symmetric] r(3)[symmetric] refl,
      where w = initial_world and sig = SIGSEGV and v = initial_world]
  show ?thesis by simp
qed

text \<open>
  C10. On the full-report path the cleanup hook is called once, after the three artifact
  writers and immediately before \<^verbatim>\<open>abort\<close>, which is the last call. On the two skip paths
  the cleanup hook is not called, and the last call is \<^verbatim>\<open>abort\<close>.
\<close>

theorem cleanup_once_before_abort:
  "(\<not> GamelogTestEmergency env \<and> \<not> SaveloadCrashWithMissingNewGRFs env \<longrightarrow>
      (\<exists>before.
         calls_of (HandleCrash env sig) w = before @ [Ev_AfterCrashLogCleanup, Ev_abort] \<and>
         Ev_AfterCrashLogCleanup \<notin> set before \<and> Ev_abort \<notin> set before \<and>
         filter is_artifact_call before =
           [Ev_WriteCrashLog (crash_report env sig), Ev_WriteSavegame, Ev_WriteScreenshot]) \<and>
      count_list (calls_of (HandleCrash env sig) w) Ev_AfterCrashLogCleanup = 1) \<and>
   (GamelogTestEmergency env \<or> SaveloadCrashWithMissingNewGRFs env \<longrightarrow>
      count_list (calls_of (HandleCrash env sig) w) Ev_AfterCrashLogCleanup = 0 \<and>
      last (calls_of (HandleCrash env sig) w) = Ev_abort \<and>
      count_list (calls_of (HandleCrash env sig) w) Ev_abort = 1)"
proof (intro conjI impI)
  assume full: "\<not> GamelogTestEmergency env \<and> \<not> SaveloadCrashWithMissingNewGRFs env"
  let ?before = "map (\<lambda>i. Ev_signal i SIG_DFL) signals_to_handle @
     [Ev_GamelogTestEmergency, Ev_SaveloadCrashWithMissingNewGRFs] @
     full_report_calls env sig @ notification_calls env sig"
  have calls: "calls_of (HandleCrash env sig) w = ?before @ [Ev_AfterCrashLogCleanup, Ev_abort]"
    using full by (simp add: HandleCrash_calls)
  have notin: "Ev_AfterCrashLogCleanup \<notin> set ?before" "Ev_abort \<notin> set ?before"
    by (auto simp: full_report_calls_def notification_calls_def split: option.splits)
  have writers: "filter is_artifact_call ?before =
      [Ev_WriteCrashLog (crash_report env sig), Ev_WriteSavegame, Ev_WriteScreenshot]"
    by (auto simp: full_report_calls_def notification_calls_def filter_map comp_def
        split: option.splits)
  show "\<exists>before.
      calls_of (HandleCrash env sig) w = before @ [Ev_AfterCrashLogCleanup, Ev_abort] \<and>
      Ev_AfterCrashLogCleanup \<notin> set before \<and> Ev_abort \<notin> set before \<and>
      filter is_artifact_call before =
        [Ev_WriteCrashLog (crash_report env sig), Ev_WriteSavegame, Ev_WriteScreenshot]"
    using calls notin writers by blast
  have "count_list ?before Ev_AfterCrashLogCleanup = 0"
    using notin by (simp only: count_list_0_iff not_False_eq_True)
  then show "count_list (calls_of (HandleCrash env sig) w) Ev_AfterCrashLogCleanup = 1"
    unfolding calls by (simp only: count_list_append) simp
next
  assume skip: "GamelogTestEmergency env \<or> SaveloadCrashWithMissingNewGRFs env"
  have sig0: "count_list (map (\<lambda>i. Ev_signal i SIG_DFL) signals_to_handle) e = 0"
    if "\<not> is_signal_call e" for e
    using that by (auto simp: count_list_0_iff)
  show "count_list (calls_of (HandleCrash env sig) w) Ev_AfterCrashLogCleanup = 0"
    using skip by (auto simp: HandleCrash_calls sig0)
  show "last (calls_of (HandleCrash env sig) w) = Ev_abort"
    using skip by (auto simp: HandleCrash_calls)
  show "count_list (calls_of (HandleCrash env sig) w) Ev_abort = 1"
    using skip by (auto simp: HandleCrash_calls sig0)
qed

theorem cleanup_once_before_abort_witness:
  "\<not> GamelogTestEmergency example_env \<and> \<not> SaveloadCrashWithMissingNewGRFs example_env \<and>
   count_list (calls_of (HandleCrash example_env SIGSEGV) initial_world) Ev_AfterCrashLogCleanup = 1 \<and>
   GamelogTestEmergency emergency_env \<and>
   count_list (calls_of (HandleCrash emergency_env SIGSEGV) initial_world) Ev_AfterCrashLogCleanup = 0 \<and>
   last (calls_of (HandleCrash emergency_env SIGSEGV) initial_world) = Ev_abort"
proof -
  have "\<not> GamelogTestEmergency example_env" "\<not> SaveloadCrashWithMissingNewGRFs example_env"
    "GamelogTestEmergency emergency_env"
    by (simp_all add: example_env_def emergency_env_def)
  then show ?thesis
    using cleanup_once_before_abort [of example_env SIGSEGV initial_world]
      cleanup_once_before_abort [of emergency_env SIGSEGV initial_world]
    by simp
qed

end
